theory Spec2Isabelle
  imports Complex_Main "HOL-Library.Word" "HOL-Library.Signed_Division"
begin

section \<open>Numeric model\<close>

text \<open>
  The renderer computes with C++ \<open>int\<close> and \<open>double\<close>.  An \<open>int\<close> is modelled by
  \<^typ>\<open>int\<close>; the loop counters below stay between 0 and the iteration cap or the image
  dimensions, so no counter leaves the 32-bit range, and products of the image
  dimensions are checked against the 32-bit range where the program forms them.

  A \<open>double\<close> is modelled by the real number it denotes.  The arithmetic of the
  escape-time kernels, whose results are compared with a sharp threshold, is modelled
  with its rounding: every operation returns the double nearest to the exact result
  (\<open>rd\<close>: 53-bit significand, ties to even).  Three things are outside this model: the
  exponent range is unbounded (no overflow to an infinity, no underflow, no NaN); every
  operation rounds on its own (no fused multiply-add); and \<open>std::abs\<close> of a
  \<open>std::complex<double>\<close> is the correctly rounded modulus.  The viewport mapping, the
  colour functions and the Newton iteration are written in exact arithmetic: what is
  proved about them is which expression is evaluated, which branch an integer count
  takes, and the range of the loop counters.

  Where a divisor can be zero the division is written out as a fault, since HOL's
  \<open>x / 0 = 0\<close> is not what the program computes; the model does not follow the program
  beyond a fault.
\<close>

type_synonym double = real

datatype fault =
    FloatDivByZero  \<comment> \<open>a \<open>double\<close> division by 0 (IEEE: NaN or an infinity, no real value)\<close>
  | IntModByZero    \<comment> \<open>an \<open>int\<close> \<open>%\<close> with second operand 0 (undefined behaviour)\<close>
  | LengthError     \<comment> \<open>\<open>std::vector\<close> constructed with a negative size (\<open>std::length_error\<close>)\<close>
  | IntOverflow     \<comment> \<open>an \<open>int\<close> result outside the 32-bit range (undefined behaviour)\<close>

definition int_range :: "int \<Rightarrow> bool" where
  "int_range n = (- (2 ^ 31) \<le> n \<and> n \<le> 2 ^ 31 - 1)"

definition rne :: "real \<Rightarrow> int" where
  \<comment> \<open>the nearest integer, ties to the even one\<close>
  "rne y = (let f = \<lfloor>y\<rfloor>; d = y - of_int f
            in if d < 1 / 2 then f else if 1 / 2 < d then f + 1
               else if even f then f else f + 1)"

definition ulp :: "real \<Rightarrow> real" where
  \<comment> \<open>the spacing of the doubles in the binade of \<open>x\<close>\<close>
  "ulp x = 2 powi (\<lfloor>log 2 \<bar>x\<bar>\<rfloor> - 52)"

definition rd :: "real \<Rightarrow> double" where
  \<comment> \<open>the double nearest to \<open>x\<close>\<close>
  "rd x = (if x = 0 then 0 else of_int (rne (x / ulp x)) * ulp x)"

definition dadd :: "double \<Rightarrow> double \<Rightarrow> double" where
  "dadd a b = rd (a + b)"

definition dsub :: "double \<Rightarrow> double \<Rightarrow> double" where
  "dsub a b = rd (a - b)"

definition dmul :: "double \<Rightarrow> double \<Rightarrow> double" where
  "dmul a b = rd (a * b)"

text \<open>\<open>std::complex<double>\<close>: a pair of doubles, here the real and imaginary part of a
  \<^typ>\<open>complex\<close>.  \<open>operator*\<close> and \<open>operator+\<close> by the textbook formulas, \<open>std::abs\<close> as
  the rounded modulus.\<close>

definition cmul_d :: "complex \<Rightarrow> complex \<Rightarrow> complex" where
  "cmul_d z w = Complex (dsub (dmul (Re z) (Re w)) (dmul (Im z) (Im w)))
                        (dadd (dmul (Re z) (Im w)) (dmul (Im z) (Re w)))"

definition cadd_d :: "complex \<Rightarrow> complex \<Rightarrow> complex" where
  "cadd_d z w = Complex (dadd (Re z) (Re w)) (dadd (Im z) (Im w))"

definition std_abs :: "complex \<Rightarrow> double" where
  "std_abs z = rd (sqrt (Re z * Re z + Im z * Im z))"

definition ddiv :: "double \<Rightarrow> double \<Rightarrow> fault + double" where
  "ddiv a b = (if b = 0 then Inl FloatDivByZero else Inr (a / b))"

definition to_int :: "double \<Rightarrow> int" where
  \<comment> \<open>\<open>static_cast<int>(double)\<close>: truncation towards zero\<close>
  "to_int x = (if 0 \<le> x then \<lfloor>x\<rfloor> else \<lceil>x\<rceil>)"

type_synonym byte = "8 word"

definition to_uchar :: "int \<Rightarrow> byte" where
  \<comment> \<open>\<open>static_cast<unsigned char>(int)\<close>: reduction modulo 256\<close>
  "to_uchar n = word_of_int n"

definition double_to_uint8 :: "double \<Rightarrow> byte" where
  \<comment> \<open>\<open>static_cast<uint8_t>(double)\<close>: truncation, for values in [0, 256)\<close>
  "double_to_uint8 x = word_of_int (to_int x)"

section \<open>Escape-time kernels\<close>

subsection \<open>\<open>MandelbrotCPU::mandelbrot_iterations\<close> (src/render.cpp)\<close>

function mandelbrot_loop :: "complex \<Rightarrow> complex \<Rightarrow> int \<Rightarrow> int \<Rightarrow> int" where
  "mandelbrot_loop c z iterations max_iter =
     (if std_abs z \<le> 2 \<and> iterations < max_iter
      then mandelbrot_loop c (cadd_d (cmul_d z z) c) (iterations + 1) max_iter
      else iterations)"
  by pat_completeness auto
termination
  by (relation "measure (\<lambda>(c, z, iterations, max_iter). nat (max_iter - iterations))") auto

declare mandelbrot_loop.simps [simp del]

definition mandelbrot_iterations :: "double \<Rightarrow> double \<Rightarrow> int \<Rightarrow> int" where
  "mandelbrot_iterations re im max_iter =
     mandelbrot_loop (Complex re im) (Complex 0 0) 0 max_iter"

subsection \<open>\<open>MandelbrotOMP::mandelbrot_iterations_omp\<close> (include/render_omp.hpp)\<close>

function omp_loop :: "double \<Rightarrow> double \<Rightarrow> double \<Rightarrow> double \<Rightarrow> int \<Rightarrow> int \<Rightarrow> int" where
  "omp_loop re im zr zi iter max_iter =
     (if iter < max_iter
      then (let zr2 = dmul zr zr; zi2 = dmul zi zi
            in if dadd zr2 zi2 > 4 then iter
               else omp_loop re im (dadd (dsub zr2 zi2) re) (dadd (dmul (dmul 2 zr) zi) im)
                      (iter + 1) max_iter)
      else iter)"
  by pat_completeness auto
termination
  by (relation "measure (\<lambda>(re, im, zr, zi, iter, max_iter). nat (max_iter - iter))") auto

declare omp_loop.simps [simp del]

definition mandelbrot_iterations_omp :: "double \<Rightarrow> double \<Rightarrow> int \<Rightarrow> int" where
  "mandelbrot_iterations_omp re im max_iter = omp_loop re im 0 0 0 max_iter"


subsection \<open>\<open>mandelbrotIterations\<close> (wasm/src/fractals_wasm.cpp)\<close>

function wasm_mandelbrot_loop :: "complex \<Rightarrow> complex \<Rightarrow> int \<Rightarrow> int \<Rightarrow> int" where
  "wasm_mandelbrot_loop c z i maxIter =
     (if i < maxIter
      then (if std_abs z > 2 then i
            else wasm_mandelbrot_loop c (cadd_d (cmul_d z z) c) (i + 1) maxIter)
      else maxIter)"
  by pat_completeness auto
termination
  by (relation "measure (\<lambda>(c, z, i, maxIter). nat (maxIter - i))") auto

declare wasm_mandelbrot_loop.simps [simp del]

definition mandelbrotIterations :: "double \<Rightarrow> double \<Rightarrow> int \<Rightarrow> int" where
  "mandelbrotIterations re im maxIter =
     wasm_mandelbrot_loop (Complex re im) (Complex 0 0) 0 maxIter"

subsection \<open>\<open>JuliaRenderer::julia_iterations\<close> (src/julia.cpp)\<close>

function julia_loop :: "double \<Rightarrow> double \<Rightarrow> double \<Rightarrow> double \<Rightarrow> int \<Rightarrow> int \<Rightarrow> int" where
  "julia_loop zx zy cx cy i max_iter =
     (if i < max_iter
      then (let zx2 = dmul zx zx; zy2 = dmul zy zy
            in if dadd zx2 zy2 > 4 then i
               else (let new_zx = dadd (dsub zx2 zy2) cx;
                         new_zy = dadd (dmul (dmul 2 zx) zy) cy
                     in julia_loop new_zx new_zy cx cy (i + 1) max_iter))
      else max_iter)"
  by pat_completeness auto
termination
  by (relation "measure (\<lambda>(zx, zy, cx, cy, i, max_iter). nat (max_iter - i))") auto

declare julia_loop.simps [simp del]

definition julia_iterations :: "double \<Rightarrow> double \<Rightarrow> double \<Rightarrow> double \<Rightarrow> int \<Rightarrow> int" where
  "julia_iterations x y cx cy max_iter = julia_loop x y cx cy 0 max_iter"

subsection \<open>\<open>BurningShipCPU::computeBurningShip\<close> (src/burning_ship.cpp)\<close>

record BurningShipCPU =
  bs_width :: int
  bs_height :: int
  bs_max_iterations :: int

function burning_ship_loop :: "double \<Rightarrow> double \<Rightarrow> double \<Rightarrow> double \<Rightarrow> int \<Rightarrow> int \<Rightarrow> int" where
  "burning_ship_loop cx cy zx zy iterations max_iterations =
     (if dadd (dmul zx zx) (dmul zy zy) < 4 \<and> iterations < max_iterations
      then (let abs_zx = \<bar>zx\<bar>; abs_zy = \<bar>zy\<bar>;
                new_zx = dadd (dsub (dmul abs_zx abs_zx) (dmul abs_zy abs_zy)) cx;
                new_zy = dadd (dmul (dmul 2 abs_zx) abs_zy) cy
            in burning_ship_loop cx cy new_zx new_zy (iterations + 1) max_iterations)
      else iterations)"
  by pat_completeness auto
termination
  by (relation "measure (\<lambda>(cx, cy, zx, zy, iterations, max_iterations).
        nat (max_iterations - iterations))") auto

declare burning_ship_loop.simps [simp del]

definition computeBurningShip :: "BurningShipCPU \<Rightarrow> double \<Rightarrow> double \<Rightarrow> int" where
  "computeBurningShip this cx cy = burning_ship_loop cx cy 0 0 0 (bs_max_iterations this)"

subsection \<open>\<open>burningShipIterations\<close> (wasm/src/fractals_wasm.cpp)\<close>

function wasm_burning_ship_loop :: "complex \<Rightarrow> complex \<Rightarrow> int \<Rightarrow> int \<Rightarrow> int" where
  "wasm_burning_ship_loop c z i maxIter =
     (if i < maxIter
      then (if std_abs z > 2 then i
            else (let zx = \<bar>Re z\<bar>; zy = \<bar>Im z\<bar>
                  in wasm_burning_ship_loop c
                       (cadd_d (Complex (dsub (dmul zx zx) (dmul zy zy)) (dmul (dmul 2 zx) zy)) c)
                       (i + 1) maxIter))
      else maxIter)"
  by pat_completeness auto
termination
  by (relation "measure (\<lambda>(c, z, i, maxIter). nat (maxIter - i))") auto

declare wasm_burning_ship_loop.simps [simp del]

definition burningShipIterations :: "double \<Rightarrow> double \<Rightarrow> int \<Rightarrow> int" where
  "burningShipIterations re im maxIter =
     wasm_burning_ship_loop (Complex re im) (Complex 0 0) 0 maxIter"

subsection \<open>The escape-time contract of the specification\<close>

text \<open>
  The contract in the words of the specification (the table of section 4.2 and the
  sentence after it), in exact arithmetic, to compare the kernels with.  A kind is given by its start state
  and its step rule; the stop condition of all three kinds is \<open>|z|\<^sup>2 > 4\<close>; the result is
  the index of the first state of the orbit at which the stop condition holds, or the
  cap if it holds at no index below the cap.
\<close>

type_synonym plane_state = "double \<times> double"

definition spec_stop :: "plane_state \<Rightarrow> bool" where
  "spec_stop z = ((fst z)\<^sup>2 + (snd z)\<^sup>2 > 4)"

fun spec_first_stop :: "(plane_state \<Rightarrow> plane_state) \<Rightarrow> plane_state \<Rightarrow> int \<Rightarrow> nat \<Rightarrow> int" where
  "spec_first_stop step z i 0 = i"
| "spec_first_stop step z i (Suc n) =
     (if spec_stop z then i else spec_first_stop step (step z) (i + 1) n)"

definition spec_escape_steps :: "(plane_state \<Rightarrow> plane_state) \<Rightarrow> plane_state \<Rightarrow> int \<Rightarrow> int" where
  "spec_escape_steps step z0 max_iterations = spec_first_stop step z0 0 (nat max_iterations)"

definition spec_square_step :: "plane_state \<Rightarrow> plane_state \<Rightarrow> plane_state" where
  \<comment> \<open>Mandelbrot and Julia: \<open>z \<leftarrow> z\<^sup>2 + c\<close>\<close>
  "spec_square_step c z =
     (fst z * fst z - snd z * snd z + fst c, 2 * fst z * snd z + snd c)"

definition spec_burning_step :: "plane_state \<Rightarrow> plane_state \<Rightarrow> plane_state" where
  \<comment> \<open>Burning Ship: \<open>z \<leftarrow> (|Re z| + i|Im z|)\<^sup>2 + c\<close>\<close>
  "spec_burning_step c z =
     (\<bar>fst z\<bar> * \<bar>fst z\<bar> - \<bar>snd z\<bar> * \<bar>snd z\<bar> + fst c, 2 * \<bar>fst z\<bar> * \<bar>snd z\<bar> + snd c)"

section \<open>Newton fractal (src/newton_fractal.cpp)\<close>

record NewtonFractalCPU =
  nf_width :: int
  nf_height :: int
  nf_max_iterations :: int

definition ROOT1_REAL :: double where "ROOT1_REAL = 1"
definition ROOT1_IMAG :: double where "ROOT1_IMAG = 0"
definition ROOT2_REAL :: double where "ROOT2_REAL = - (1 / 2)"
definition ROOT2_IMAG :: double where "ROOT2_IMAG = 866025403784 / 10 ^ 12"
definition ROOT3_REAL :: double where "ROOT3_REAL = - (1 / 2)"
definition ROOT3_IMAG :: double where "ROOT3_IMAG = - (866025403784 / 10 ^ 12)"
definition CONVERGENCE_THRESHOLD :: double where "CONVERGENCE_THRESHOLD = 1 / 10 ^ 6"

definition newtonIteration :: "complex \<Rightarrow> complex" where
  "newtonIteration z =
     (let z2 = z * z; z3 = z2 * z
      in if cmod z2 < 1 / 10 ^ 10 then z else (2 * z3 + 1) / (3 * z2))"

definition identifyRoot :: "complex \<Rightarrow> int" where
  "identifyRoot z =
     (if cmod (z - Complex ROOT1_REAL ROOT1_IMAG) < CONVERGENCE_THRESHOLD then 1
      else if cmod (z - Complex ROOT2_REAL ROOT2_IMAG) < CONVERGENCE_THRESHOLD then 2
      else if cmod (z - Complex ROOT3_REAL ROOT3_IMAG) < CONVERGENCE_THRESHOLD then 3
      else 0)"

text \<open>The \<open>while\<close> loop of \<open>NewtonFractalCPU::render\<close>; it returns the final \<open>z\<close> and
  \<open>iterations\<close>.\<close>

function newton_loop :: "complex \<Rightarrow> int \<Rightarrow> int \<Rightarrow> complex \<times> int" where
  "newton_loop z iterations max_iterations =
     (if iterations < max_iterations
      then (let z_old = z; z' = newtonIteration z
            in if cmod (z' - z_old) < CONVERGENCE_THRESHOLD then (z', iterations)
               else newton_loop z' (iterations + 1) max_iterations)
      else (z, iterations))"
  by pat_completeness auto
termination
  by (relation "measure (\<lambda>(z, iterations, max_iterations).
        nat (max_iterations - iterations))") auto

declare newton_loop.simps [simp del]

text \<open>The body of the pixel loops of \<open>NewtonFractalCPU::render\<close>: the pair
  \<open>{root, iterations}\<close> stored for pixel \<open>(x, y)\<close>.\<close>

definition newton_pixel ::
  "NewtonFractalCPU \<Rightarrow> double \<Rightarrow> double \<Rightarrow> double \<Rightarrow> int \<Rightarrow> int \<Rightarrow> fault + (int \<times> int)" where
  "newton_pixel this center_x center_y zoom x y =
     (case ddiv 4 zoom of Inl e \<Rightarrow> Inl e
      | Inr scale \<Rightarrow>
        (let min_x = center_x - scale / 2; max_x = center_x + scale / 2;
             min_y = center_y - scale / 2; max_y = center_y + scale / 2
         in case ddiv ((max_x - min_x) * of_int x) (of_int (nf_width this - 1)) of Inl e \<Rightarrow> Inl e
            | Inr qx \<Rightarrow>
              (case ddiv ((max_y - min_y) * of_int y) (of_int (nf_height this - 1)) of
                 Inl e \<Rightarrow> Inl e
               | Inr qy \<Rightarrow>
                 (let cx = min_x + qx; cy = min_y + qy;
                      (z, iterations) = newton_loop (Complex cx cy) 0 (nf_max_iterations this);
                      root_id = identifyRoot z
                  in Inr (root_id, iterations)))))"

definition uint8_to_double :: "byte \<Rightarrow> double" where
  "uint8_to_double v = of_nat (unat v)"

definition rootToRGB :: "NewtonFractalCPU \<Rightarrow> int \<Rightarrow> int \<Rightarrow> fault + byte list" where
  "rootToRGB this root_id iterations =
     (if root_id = 1 \<or> root_id = 2 \<or> root_id = 3
      then (let base_color = (if root_id = 1 then [255, 50, 50]
                              else if root_id = 2 then [50, 255, 50]
                              else [50, 50, 255])
            in case ddiv (of_int (nf_max_iterations this - iterations))
                         (of_int (nf_max_iterations this)) of
                 Inl e \<Rightarrow> Inl e
               | Inr cf \<Rightarrow>
                 (let convergence_factor = max (3 / 10) cf
                  in Inr [double_to_uint8 (uint8_to_double (base_color ! 0) * convergence_factor),
                          double_to_uint8 (uint8_to_double (base_color ! 1) * convergence_factor),
                          double_to_uint8 (uint8_to_double (base_color ! 2) * convergence_factor)]))
      else Inr [0, 0, 0])"

section \<open>Colour mapping of the escape-time kinds\<close>

datatype RGB = RGB (rgb_r: byte) (rgb_g: byte) (rgb_b: byte)

text \<open>\<open>MandelbrotCPU::iterations_to_color\<close> (src/render.cpp).\<close>

definition iterations_to_color :: "int \<Rightarrow> int \<Rightarrow> fault + RGB" where
  "iterations_to_color iterations max_iter =
     (if iterations = max_iter then Inr (RGB 0 0 0)
      else case ddiv (of_int iterations) (of_int max_iter) of Inl e \<Rightarrow> Inl e
        | Inr t \<Rightarrow> Inr (
            if t < 0.16 then
              RGB (to_uchar 255) (to_uchar (to_int (255 * t / 0.16))) (to_uchar 0)
            else if t < 0.33 then
              RGB (to_uchar (to_int (255 * (0.33 - t) / 0.17))) (to_uchar 255) (to_uchar 0)
            else if t < 0.5 then
              RGB (to_uchar 0) (to_uchar 255) (to_uchar (to_int (255 * (t - 0.33) / 0.17)))
            else if t < 0.66 then
              RGB (to_uchar 0) (to_uchar (to_int (255 * (0.66 - t) / 0.16))) (to_uchar 255)
            else if t < 0.83 then
              RGB (to_uchar (to_int (255 * (t - 0.66) / 0.17))) (to_uchar 0) (to_uchar 255)
            else
              RGB (to_uchar 255) (to_uchar 0) (to_uchar (to_int (255 * (1 - t) / 0.17)))))"

text \<open>\<open>JuliaRenderer::iterations_to_color\<close> (src/julia.cpp); the three \<open>int\<close> outputs
  \<open>r, g, b\<close> are returned as a triple.\<close>

definition julia_iterations_to_color :: "int \<Rightarrow> int \<Rightarrow> fault + (int \<times> int \<times> int)" where
  "julia_iterations_to_color iterations max_iterations =
     (if iterations = max_iterations then Inr (0, 0, 0)
      else case ddiv (360 * of_int iterations) (of_int max_iterations) of Inl e \<Rightarrow> Inl e
        | Inr hue \<Rightarrow>
          (let saturation = 1; val = 1;
               hi = to_int (hue / 60) smod 6;
               f = hue / 60 - of_int hi;
               p = val * (1 - saturation);
               q = val * (1 - f * saturation);
               t = val * (1 - (1 - f) * saturation);
               (red, green, blue) =
                 (if hi = 0 then (val, t, p)
                  else if hi = 1 then (q, val, p)
                  else if hi = 2 then (p, val, t)
                  else if hi = 3 then (p, q, val)
                  else if hi = 4 then (t, p, val)
                  else if hi = 5 then (val, p, q)
                  else (0, 0, 0))
           in Inr (to_int (red * 255), to_int (green * 255), to_int (blue * 255))))"

text \<open>The colour that \<open>JuliaRenderer::save_ppm\<close> writes for a stored iteration count: it
  calls \<open>iterations_to_color(iterations, 1000, r, g, b)\<close>.\<close>

definition julia_save_ppm_color :: "int \<Rightarrow> fault + (int \<times> int \<times> int)" where
  "julia_save_ppm_color iterations = julia_iterations_to_color iterations 1000"

text \<open>\<open>BurningShipCPU::hsvToRgb\<close> and \<open>BurningShipCPU::iterationsToRGB\<close>
  (src/burning_ship.cpp).\<close>

definition fmod :: "double \<Rightarrow> double \<Rightarrow> double" where
  \<comment> \<open>\<open>std::fmod\<close> for a nonzero divisor: the remainder has the sign of the dividend\<close>
  "fmod x y = x - y * of_int (to_int (x / y))"

definition hsvToRgb :: "double \<Rightarrow> double \<Rightarrow> double \<Rightarrow> byte list" where
  "hsvToRgb h s v =
     (let c = v * s;
          x = c * (1 - \<bar>fmod (h / 60) 2 - 1\<bar>);
          m = v - c;
          (r, g, b) = (if h < 60 then (c, x, 0)
                       else if h < 120 then (x, c, 0)
                       else if h < 180 then (0, c, x)
                       else if h < 240 then (0, x, c)
                       else if h < 300 then (x, 0, c)
                       else (c, 0, x))
      in [double_to_uint8 ((r + m) * 255), double_to_uint8 ((g + m) * 255),
          double_to_uint8 ((b + m) * 255)])"

definition iterationsToRGB :: "BurningShipCPU \<Rightarrow> int \<Rightarrow> fault + byte list" where
  "iterationsToRGB this iterations =
     (if iterations = bs_max_iterations this then Inr [0, 0, 0]
      else case ddiv (of_int iterations) (of_int (bs_max_iterations this)) of Inl e \<Rightarrow> Inl e
        | Inr t \<Rightarrow>
          (let (hue, saturation, val) =
                 (if t < 0.16 then (240 + t * 60 / 0.16, 1, 0.5 + t * 0.5 / 0.16)
                  else if t < 0.42 then (300 + (t - 0.16) * 60 / 0.26, 1, 1)
                  else if t < 0.6425 then (0 + (t - 0.42) * 30 / 0.2225, 1, 1)
                  else if t < 0.8575 then (30 + (t - 0.6425) * 30 / 0.215, 1, 1)
                  else (60, 1 - (t - 0.8575) / 0.1425, 1))
           in Inr (hsvToRgb hue saturation val)))"

section \<open>The Mandelbrot renderer (src/render.cpp, src/main.cpp)\<close>

record RenderParams =
  width :: int
  height :: int
  max_iter :: int
  x_min :: double
  x_max :: double
  y_min :: double
  y_max :: double

text \<open>
  What the renderer can observe or change besides its arguments: the clock it reads
  before and after the pixel loops, and the console it prints to.  The n-th reading of the
  clock yields \<open>clock w n\<close>; a printed line is recorded as an event.
\<close>

datatype event =
    LogRenderStart RenderParams
  | LogProgress int
  | LogRenderDone int
  | LogError string

record world =
  clock :: "nat \<Rightarrow> int"
  reads :: nat
  console :: "event list"

definition now :: "world \<Rightarrow> int \<times> world" where
  "now w = (clock w (reads w), w\<lparr>reads := Suc (reads w)\<rparr>)"

definition cout :: "event \<Rightarrow> world \<Rightarrow> world" where
  "cout e w = w\<lparr>console := console w @ [e]\<rparr>"

text \<open>The viewport mapping of lines 93 and 94: \<open>x_min + (x_max - x_min) * px / (width - 1)\<close>,
  evaluated left to right, so the quotient is formed before the sum.\<close>

definition pixel_real :: "RenderParams \<Rightarrow> int \<Rightarrow> fault + double" where
  "pixel_real params px =
     (case ddiv ((x_max params - x_min params) * of_int px) (of_int (width params - 1)) of
        Inl e \<Rightarrow> Inl e
      | Inr q \<Rightarrow> Inr (x_min params + q))"

definition pixel_imag :: "RenderParams \<Rightarrow> int \<Rightarrow> fault + double" where
  "pixel_imag params py =
     (case ddiv ((y_max params - y_min params) * of_int py) (of_int (height params - 1)) of
        Inl e \<Rightarrow> Inl e
      | Inr q \<Rightarrow> Inr (y_min params + q))"

text \<open>The body of the inner loop up to the colour (lines 93 to 100).\<close>

definition pixel_color :: "RenderParams \<Rightarrow> int \<Rightarrow> int \<Rightarrow> fault + RGB" where
  "pixel_color params px py =
     (case pixel_real params px of Inl e \<Rightarrow> Inl e
      | Inr re \<Rightarrow>
        (case pixel_imag params py of Inl e \<Rightarrow> Inl e
         | Inr im \<Rightarrow>
           (let iterations = mandelbrot_iterations re im (max_iter params)
            in iterations_to_color iterations (max_iter params))))"

function px_loop :: "RenderParams \<Rightarrow> int \<Rightarrow> int \<Rightarrow> byte list \<Rightarrow> fault + byte list" where
  "px_loop params py px image_data =
     (if px < width params
      then (case pixel_color params px py of Inl e \<Rightarrow> Inl e
            | Inr color \<Rightarrow>
              (let pixel_index = (py * width params + px) * 3
               in px_loop params py (px + 1)
                    (image_data[nat pixel_index := rgb_r color,
                                nat (pixel_index + 1) := rgb_g color,
                                nat (pixel_index + 2) := rgb_b color])))
      else Inr image_data)"
  by pat_completeness auto
termination
  by (relation "measure (\<lambda>(params, py, px, image_data). nat (width params - px))") auto

declare px_loop.simps [simp del]

text \<open>The progress report after each row (lines 110 to 113).\<close>

definition progress_report :: "RenderParams \<Rightarrow> int \<Rightarrow> world \<Rightarrow> fault + world" where
  "progress_report params py w =
     (if height params sdiv 10 = 0 then Inl IntModByZero
      else if py smod (height params sdiv 10) = 0
      then (if int_range (py * 100)
            then Inr (cout (LogProgress ((py * 100) sdiv height params)) w)
            else Inl IntOverflow)
      else Inr w)"

function py_loop :: "RenderParams \<Rightarrow> int \<Rightarrow> byte list \<Rightarrow> world \<Rightarrow> (fault + byte list) \<times> world" where
  "py_loop params py image_data w =
     (if py < height params
      then (case px_loop params py 0 image_data of Inl e \<Rightarrow> (Inl e, w)
            | Inr image_data' \<Rightarrow>
              (case progress_report params py w of Inl e \<Rightarrow> (Inl e, w)
               | Inr w' \<Rightarrow> py_loop params (py + 1) image_data' w'))
      else (Inr image_data, w))"
  by pat_completeness auto
termination
  by (relation "measure (\<lambda>(params, py, image_data, w). nat (height params - py))") auto

declare py_loop.simps [simp del]

definition render_mandelbrot_cpu :: "RenderParams \<Rightarrow> world \<Rightarrow> (fault + byte list) \<times> world" where
  "render_mandelbrot_cpu params w0 =
     (let w1 = cout (LogRenderStart params) w0;
          (start_time, w2) = now w1;
          total_pixels = width params * height params
      in if int_range total_pixels \<and> int_range (total_pixels * 3)
         then (if total_pixels * 3 < 0 then (Inl LengthError, w2)
               else (let image_data = replicate (nat (total_pixels * 3)) 0
                     in case py_loop params 0 image_data w2 of
                          (Inl e, w3) \<Rightarrow> (Inl e, w3)
                        | (Inr image_data', w3) \<Rightarrow>
                          (let (end_time, w4) = now w3;
                               w5 = cout (LogRenderDone (end_time - start_time)) w4
                           in (Inr image_data', w5))))
         else (Inl IntOverflow, w2))"

text \<open>
  The parameter validation of \<open>main\<close> (src/main.cpp, lines 97 to 109, the same in
  src/main_unified.cpp): three checks in this order, each printing a message and
  returning 1.  The three outcomes are named after the error taxonomy of the
  specification.  \<open>main_render\<close> is \<open>main\<close> from the validation to the call of the
  renderer; \<open>Inl\<close> means that \<open>main\<close> returned before calling the renderer.
\<close>

datatype validation_error = InvalidDimensions | InvalidIterationBudget | InvalidViewport

definition validate_params :: "RenderParams \<Rightarrow> validation_error option" where
  "validate_params params =
     (if width params \<le> 0 \<or> height params \<le> 0 then Some InvalidDimensions
      else if max_iter params \<le> 0 then Some InvalidIterationBudget
      else if x_min params \<ge> x_max params \<or> y_min params \<ge> y_max params
      then Some InvalidViewport
      else None)"

definition error_message :: "validation_error \<Rightarrow> string" where
  "error_message e =
     (case e of InvalidDimensions \<Rightarrow> ''[ERROR] image size must be positive''
      | InvalidIterationBudget \<Rightarrow> ''[ERROR] iteration count must be positive''
      | InvalidViewport \<Rightarrow> ''[ERROR] invalid coordinate range'')"

definition main_render ::
  "RenderParams \<Rightarrow> world \<Rightarrow> (validation_error + (fault + byte list)) \<times> world" where
  "main_render params w =
     (case validate_params params of
        Some e \<Rightarrow> (Inl e, cout (LogError (error_message e)) w)
      | None \<Rightarrow> (let (image_data, w') = render_mandelbrot_cpu params w in (Inr image_data, w')))"

section \<open>The Julia renderer (src/julia.cpp)\<close>

record JuliaParams =
  jp_cx :: double
  jp_cy :: double
  jp_width :: int
  jp_height :: int
  jp_max_iterations :: int
  jp_x_min :: double
  jp_x_max :: double
  jp_y_min :: double
  jp_y_max :: double

text \<open>The sample of pixel \<open>(px, py)\<close> in \<open>JuliaRenderer::render\<close>: the pixel step is the
  extent divided by the number of pixels (lines 29, 30, 36 and 37).\<close>

definition julia_sample :: "JuliaParams \<Rightarrow> int \<Rightarrow> int \<Rightarrow> fault + (double \<times> double)" where
  "julia_sample params px py =
     (case ddiv (jp_x_max params - jp_x_min params) (of_int (jp_width params)) of
        Inl e \<Rightarrow> Inl e
      | Inr dx \<Rightarrow>
        (case ddiv (jp_y_max params - jp_y_min params) (of_int (jp_height params)) of
           Inl e \<Rightarrow> Inl e
         | Inr dy \<Rightarrow>
           (let x = jp_x_min params + of_int px * dx;
                y = jp_y_min params + of_int py * dy
            in Inr (x, y))))"

text \<open>The iteration count stored for a pixel (line 40), and the colour written for it
  by \<open>save_ppm\<close>.\<close>

definition julia_pixel :: "JuliaParams \<Rightarrow> int \<Rightarrow> int \<Rightarrow> fault + int" where
  "julia_pixel params px py =
     (case julia_sample params px py of Inl e \<Rightarrow> Inl e
      | Inr (x, y) \<Rightarrow>
        Inr (julia_iterations x y (jp_cx params) (jp_cy params) (jp_max_iterations params)))"

definition julia_pixel_color :: "JuliaParams \<Rightarrow> int \<Rightarrow> int \<Rightarrow> fault + (int \<times> int \<times> int)" where
  "julia_pixel_color params px py =
     (case julia_pixel params px py of Inl e \<Rightarrow> Inl e
      | Inr iterations \<Rightarrow> julia_save_ppm_color iterations)"

section \<open>Properties of the rounding model\<close>

text \<open>
  \<open>rd\<close> leaves every number \<open>m * 2\<^sup>e\<close> with \<open>2\<^sup>5\<^sup>2 \<le> |m| < 2\<^sup>5\<^sup>3\<close> as it is (\<open>rd_repr\<close>), so its
  values are doubles (\<open>rd_idem\<close>); it commutes with doubling (\<open>rd_scale2\<close>) and never
  crosses a power of two (\<open>rd_ge_pow2\<close>).
\<close>

lemma rne_of_int: "rne (of_int m) = m"
  by (simp add: rne_def)






lemma binade_unique:
  assumes "2 powi k \<le> \<bar>x\<bar>" and "\<bar>x\<bar> < 2 powi (k + 1)"
  shows "\<lfloor>log 2 \<bar>x\<bar>\<rfloor> = k"
proof -
  have "0 < (2::real) powi k" by simp
  with assms(1) have pos: "0 < \<bar>x\<bar>" by linarith
  have "2 powr (real_of_int k + 1) = 2 powi (k + 1)"
    using powr_real_of_int' [of 2 "k + 1"] by simp
  moreover have "2 powr (real_of_int k) = 2 powi k"
    using powr_real_of_int' [of 2 k] by simp
  ultimately show ?thesis
    using floor_log_eq_powr_iff [of "\<bar>x\<bar>" 2 k] assms pos by simp
qed

lemma ulp_eq: "2 powi k \<le> \<bar>x\<bar> \<Longrightarrow> \<bar>x\<bar> < 2 powi (k + 1) \<Longrightarrow> ulp x = 2 powi (k - 52)"
  by (simp add: ulp_def binade_unique)


lemma rd_0: "rd 0 = 0"
  by (simp add: rd_def)

lemma rd_repr:
  assumes "2 ^ 52 \<le> \<bar>m\<bar>" and "\<bar>m\<bar> < 2 ^ 53"
  shows "rd (of_int m * 2 powi e) = of_int m * 2 powi e"
proof -
  let ?x = "of_int m * (2::real) powi e"
  have abs: "\<bar>?x\<bar> = of_int \<bar>m\<bar> * 2 powi e" by (simp add: abs_mult)
  have lo: "2 powi (e + 52) \<le> \<bar>?x\<bar>"
  proof -
    have "(2::real) ^ 52 \<le> of_int \<bar>m\<bar>" using assms(1) by (metis of_int_le_iff of_int_numeral of_int_power)
    then have "2 ^ 52 * 2 powi e \<le> of_int \<bar>m\<bar> * (2::real) powi e"
      by (intro mult_right_mono) simp_all
    then show ?thesis by (simp add: abs power_int_add mult.commute)
  qed
  have hi: "\<bar>?x\<bar> < 2 powi (e + 52 + 1)"
  proof -
    have "of_int \<bar>m\<bar> < (2::real) ^ 53" using assms(2) by (metis of_int_less_iff of_int_numeral of_int_power)
    then have "of_int \<bar>m\<bar> * (2::real) powi e < 2 ^ 53 * 2 powi e"
      by (intro mult_strict_right_mono) simp_all
    then show ?thesis by (simp add: abs power_int_add mult.commute)
  qed
  have u: "ulp ?x = 2 powi e" using ulp_eq [OF lo hi] by simp
  have "m \<noteq> 0" using assms(1) by auto
  then have nz: "?x \<noteq> 0" by simp
  have "?x / ulp ?x = of_int m" by (simp add: u)
  then show ?thesis using nz by (simp add: rd_def rne_of_int u)
qed

lemma rd_dyadic:
  "x = of_int m * 2 powi e \<Longrightarrow> 2 ^ 52 \<le> \<bar>m\<bar> \<Longrightarrow> \<bar>m\<bar> < 2 ^ 53 \<Longrightarrow> rd x = x"
  using rd_repr [of m e] by simp

lemma rd_2: "rd 2 = 2"
  by (rule rd_dyadic [of _ "2 ^ 52" "- 51"]) (simp_all add: power_int_minus)




lemma ulp_binade: "x \<noteq> 0 \<Longrightarrow> ulp x = 2 powi (\<lfloor>log 2 \<bar>x\<bar>\<rfloor> - 52)"
  by (simp add: ulp_def)







lemma rd_pow2: "rd (2 powi k) = 2 powi k"
proof -
  have "(2::real) powi k = of_int (2 ^ 52) * 2 powi (k - 52)"
    using power_int_add [of "2::real" 52 "k - 52"] by simp
  moreover have "rd (of_int (2 ^ 52) * 2 powi (k - 52)) = of_int (2 ^ 52) * 2 powi (k - 52)"
    by (rule rd_repr) simp_all
  ultimately show ?thesis by simp
qed

lemma rd_4: "rd 4 = 4"
  by (rule rd_dyadic [of _ "2 ^ 52" "- 50"]) (simp_all add: power_int_minus)

lemma rd_6: "rd 6 = 6"
  by (rule rd_dyadic [of _ "3 * 2 ^ 51" "- 50"]) (simp_all add: power_int_minus)


lemma std_abs_real: "std_abs (Complex x 0) = rd \<bar>x\<bar>"
  by (simp add: std_abs_def)

lemma std_abs_0: "std_abs (Complex 0 0) = 0"
  by (simp add: std_abs_def rd_0)

lemma dops_0:
  "dmul 0 x = 0" "dmul x 0 = 0" "dadd 0 0 = 0" "dsub 0 0 = 0" "dadd 0 x = rd x" "dadd x 0 = rd x"
  by (simp_all add: dmul_def dadd_def dsub_def rd_0)

lemma first_step: "cadd_d (cmul_d (Complex 0 0) (Complex 0 0)) c = Complex (rd (Re c)) (rd (Im c))"
  by (simp add: cadd_d_def cmul_d_def dops_0 rd_0)

section \<open>Properties of the kernels\<close>

subsection \<open>Step counts stay between the start index and the cap\<close>

lemma mandelbrot_loop_bounds:
  "iterations \<le> cap \<Longrightarrow>
     iterations \<le> mandelbrot_loop c z iterations cap \<and>
     mandelbrot_loop c z iterations cap \<le> cap"
proof (induction c z iterations cap rule: mandelbrot_loop.induct)
  case (1 c z iterations cap)
  show ?case
  proof (cases "std_abs z \<le> 2 \<and> iterations < cap")
    case True
    then have "mandelbrot_loop c z iterations cap
        = mandelbrot_loop c (cadd_d (cmul_d z z) c) (iterations + 1) cap"
      by (subst mandelbrot_loop.simps) simp
    with "1.IH" [OF True] True show ?thesis by simp
  next
    case False
    then have "mandelbrot_loop c z iterations cap = iterations"
      by (subst mandelbrot_loop.simps) auto
    with "1.prems" show ?thesis by simp
  qed
qed


lemma omp_loop_bounds:
  "i \<le> cap \<Longrightarrow> i \<le> omp_loop re im zr zi i cap \<and> omp_loop re im zr zi i cap \<le> cap"
proof (induction re im zr zi i cap rule: omp_loop.induct)
  case (1 re im zr zi i cap)
  show ?case
  proof (cases "i < cap")
    case False
    then have "omp_loop re im zr zi i cap = i"
      by (subst omp_loop.simps) simp
    with "1.prems" show ?thesis by simp
  next
    case True
    show ?thesis
    proof (cases "dadd (dmul zr zr) (dmul zi zi) > 4")
      case esc: True
      with True have "omp_loop re im zr zi i cap = i"
        by (subst omp_loop.simps) simp
      with True show ?thesis by simp
    next
      case noesc: False
      with True have "omp_loop re im zr zi i cap
          = omp_loop re im (dadd (dsub (dmul zr zr) (dmul zi zi)) re)
              (dadd (dmul (dmul 2 zr) zi) im) (i + 1) cap"
        by (subst omp_loop.simps) (simp add: Let_def)
      moreover have "i + 1 \<le> omp_loop re im (dadd (dsub (dmul zr zr) (dmul zi zi)) re)
              (dadd (dmul (dmul 2 zr) zi) im) (i + 1) cap
          \<and> omp_loop re im (dadd (dsub (dmul zr zr) (dmul zi zi)) re)
              (dadd (dmul (dmul 2 zr) zi) im) (i + 1) cap \<le> cap"
        using "1.IH" [OF True refl refl] noesc True by simp
      ultimately show ?thesis by simp
    qed
  qed
qed

lemma julia_loop_bounds:
  "i \<le> cap \<Longrightarrow> i \<le> julia_loop zx zy cx cy i cap \<and> julia_loop zx zy cx cy i cap \<le> cap"
proof (induction zx zy cx cy i cap rule: julia_loop.induct)
  case (1 zx zy cx cy i cap)
  show ?case
  proof (cases "i < cap")
    case False
    then have "julia_loop zx zy cx cy i cap = cap"
      by (subst julia_loop.simps) simp
    with "1.prems" show ?thesis by simp
  next
    case True
    show ?thesis
    proof (cases "dadd (dmul zx zx) (dmul zy zy) > 4")
      case esc: True
      with True have "julia_loop zx zy cx cy i cap = i"
        by (subst julia_loop.simps) simp
      with True show ?thesis by simp
    next
      case noesc: False
      with True have "julia_loop zx zy cx cy i cap
          = julia_loop (dadd (dsub (dmul zx zx) (dmul zy zy)) cx)
              (dadd (dmul (dmul 2 zx) zy) cy) cx cy (i + 1) cap"
        by (subst julia_loop.simps) (simp add: Let_def)
      moreover have "i + 1 \<le> julia_loop (dadd (dsub (dmul zx zx) (dmul zy zy)) cx)
              (dadd (dmul (dmul 2 zx) zy) cy) cx cy (i + 1) cap
          \<and> julia_loop (dadd (dsub (dmul zx zx) (dmul zy zy)) cx)
              (dadd (dmul (dmul 2 zx) zy) cy) cx cy (i + 1) cap \<le> cap"
        using "1.IH" [OF True refl refl _ refl refl] noesc True by simp
      ultimately show ?thesis by simp
    qed
  qed
qed

lemma burning_ship_loop_bounds:
  "i \<le> cap \<Longrightarrow> i \<le> burning_ship_loop cx cy zx zy i cap \<and> burning_ship_loop cx cy zx zy i cap \<le> cap"
proof (induction cx cy zx zy i cap rule: burning_ship_loop.induct)
  case (1 cx cy zx zy i cap)
  show ?case
  proof (cases "dadd (dmul zx zx) (dmul zy zy) < 4 \<and> i < cap")
    case True
    then have "burning_ship_loop cx cy zx zy i cap
        = burning_ship_loop cx cy (dadd (dsub (dmul \<bar>zx\<bar> \<bar>zx\<bar>) (dmul \<bar>zy\<bar> \<bar>zy\<bar>)) cx)
            (dadd (dmul (dmul 2 \<bar>zx\<bar>) \<bar>zy\<bar>) cy) (i + 1) cap"
      by (subst burning_ship_loop.simps) (simp add: Let_def)
    moreover have "i + 1 \<le> burning_ship_loop cx cy (dadd (dsub (dmul \<bar>zx\<bar> \<bar>zx\<bar>) (dmul \<bar>zy\<bar> \<bar>zy\<bar>)) cx)
            (dadd (dmul (dmul 2 \<bar>zx\<bar>) \<bar>zy\<bar>) cy) (i + 1) cap
       \<and> burning_ship_loop cx cy (dadd (dsub (dmul \<bar>zx\<bar> \<bar>zx\<bar>) (dmul \<bar>zy\<bar> \<bar>zy\<bar>)) cx)
            (dadd (dmul (dmul 2 \<bar>zx\<bar>) \<bar>zy\<bar>) cy) (i + 1) cap \<le> cap"
      using "1.IH" [OF True refl refl refl refl] True by simp
    ultimately show ?thesis by simp
  next
    case False
    then have "burning_ship_loop cx cy zx zy i cap = i"
      by (subst burning_ship_loop.simps) auto
    with "1.prems" show ?thesis by simp
  qed
qed

lemma cmod_less_iff: "0 < t \<Longrightarrow> cmod z < t \<longleftrightarrow> (Re z)\<^sup>2 + (Im z)\<^sup>2 < t\<^sup>2"
proof -
  assume t: "0 < t"
  have "cmod z < t \<longleftrightarrow> (cmod z)\<^sup>2 < t\<^sup>2"
    using abs_le_square_iff [of t "cmod z"] t by (simp add: not_le [symmetric])
  then show ?thesis by (simp add: cmod_power2)
qed

lemma newton_loop_bounds:
  "i \<le> cap \<Longrightarrow> i \<le> snd (newton_loop z i cap) \<and> snd (newton_loop z i cap) \<le> cap"
proof (induction z i cap rule: newton_loop.induct)
  case (1 z i cap)
  show ?case
  proof (cases "i < cap")
    case False
    then have "newton_loop z i cap = (z, i)"
      by (subst newton_loop.simps) simp
    with "1.prems" show ?thesis by simp
  next
    case True
    show ?thesis
    proof (cases "cmod (newtonIteration z - z) < CONVERGENCE_THRESHOLD")
      case conv: True
      with True have "newton_loop z i cap = (newtonIteration z, i)"
        by (subst newton_loop.simps) (simp add: Let_def)
      with True show ?thesis by simp
    next
      case nconv: False
      with True have "newton_loop z i cap = newton_loop (newtonIteration z) (i + 1) cap"
        by (subst newton_loop.simps) (simp add: Let_def)
      moreover have "i + 1 \<le> snd (newton_loop (newtonIteration z) (i + 1) cap)
          \<and> snd (newton_loop (newtonIteration z) (i + 1) cap) \<le> cap"
        using "1.IH" [OF True refl refl] nconv True by simp
      ultimately show ?thesis by simp
    qed
  qed
qed

lemma newton_loop_snd:
  "0 \<le> cap \<Longrightarrow> newton_loop z 0 cap = (z', it) \<Longrightarrow> 0 \<le> it \<and> it \<le> cap"
  using newton_loop_bounds [of 0 cap z] by simp

lemma identifyRoot_range: "identifyRoot z \<in> {0, 1, 2, 3}"
  by (simp add: identifyRoot_def)

lemma newton_pixel_bounds:
  assumes "newton_pixel this center_x center_y zoom x y = Inr (root_id, iterations)"
    and "0 \<le> nf_max_iterations this"
  shows "0 \<le> iterations \<and> iterations \<le> nf_max_iterations this \<and> root_id \<in> {0, 1, 2, 3}"
proof -
  from assms(1) obtain z0 z' where
    loop: "newton_loop z0 0 (nf_max_iterations this) = (z', iterations)"
    and root: "root_id = identifyRoot z'"
    by (auto simp add: newton_pixel_def Let_def split: sum.splits prod.splits)
  from newton_loop_snd [OF assms(2) loop] identifyRoot_range [of z'] root
  show ?thesis by simp
qed

subsection \<open>The first pass through each loop\<close>






lemma wasm_mandelbrot_first:
  "0 < cap \<Longrightarrow> mandelbrotIterations re im cap
     = wasm_mandelbrot_loop (Complex re im) (Complex (rd re) (rd im)) 1 cap"
  unfolding mandelbrotIterations_def
  by (subst wasm_mandelbrot_loop.simps) (simp add: std_abs_0 first_step)


lemma wasm_mandelbrot_immediate:
  assumes "0 < cap" and "2 < std_abs (Complex (rd re) (rd im))"
  shows "mandelbrotIterations re im cap = 1"
proof -
  have "wasm_mandelbrot_loop (Complex re im) (Complex (rd re) (rd im)) 1 cap = 1"
    using assms by (subst wasm_mandelbrot_loop.simps) auto
  with assms(1) show ?thesis by (simp add: wasm_mandelbrot_first)
qed






lemma burning_ship_first:
  "0 < bs_max_iterations this \<Longrightarrow> computeBurningShip this cx cy
     = burning_ship_loop cx cy (rd cx) (rd cy) 1 (bs_max_iterations this)"
  unfolding computeBurningShip_def
  by (subst burning_ship_loop.simps) (simp add: dops_0 rd_0 Let_def)


lemma burning_ship_immediate:
  assumes "0 < bs_max_iterations this"
    and "\<not> dadd (dmul (rd cx) (rd cx)) (dmul (rd cy) (rd cy)) < 4"
  shows "computeBurningShip this cx cy = 1"
proof -
  have "burning_ship_loop cx cy (rd cx) (rd cy) 1 (bs_max_iterations this) = 1"
    using assms(2) by (subst burning_ship_loop.simps) simp
  with assms(1) show ?thesis by (simp add: burning_ship_first)
qed


subsection \<open>The sample \<open>(3, 0)\<close>\<close>




subsection \<open>The Burning Ship kernels at the sample \<open>(2, 0)\<close>\<close>

lemma bs_eval: "computeBurningShip \<lparr>bs_width = 800, bs_height = 600, bs_max_iterations = 1000\<rparr> 2 0 = 1"
proof -
  have "dadd (dmul (rd 2) (rd 2)) (dmul (rd 0) (rd 0)) = 4"
    by (simp add: rd_2 rd_0 rd_4 dmul_def dadd_def)
  then show ?thesis by (intro burning_ship_immediate) simp_all
qed

lemma wasm_bs_eval: "burningShipIterations 2 0 1000 = 2"
proof -
  have a: "std_abs (Complex 2 0) = 2" by (simp add: std_abs_real rd_2)
  have b: "std_abs (Complex 6 0) = 6" by (simp add: std_abs_real rd_6)
  have s1: "cadd_d (Complex (dsub (dmul 0 0) (dmul 0 0)) (dmul (dmul 2 0) 0)) (Complex 2 0) = Complex 2 0"
    by (simp add: cadd_d_def dops_0 rd_0 rd_2)
  have s2: "cadd_d (Complex (dsub (dmul 2 2) (dmul 0 0)) (dmul (dmul 2 2) 0)) (Complex 2 0) = Complex 6 0"
    by (simp add: cadd_d_def dops_0 rd_0 rd_4 rd_6 dmul_def dsub_def dadd_def)
  have "wasm_burning_ship_loop (Complex 2 0) (Complex 0 0) 0 1000
      = wasm_burning_ship_loop (Complex 2 0) (Complex 2 0) 1 1000"
    by (subst wasm_burning_ship_loop.simps) (simp add: std_abs_0 s1 Let_def)
  also have "\<dots> = wasm_burning_ship_loop (Complex 2 0) (Complex 6 0) 2 1000"
    by (subst wasm_burning_ship_loop.simps) (simp add: a s2 Let_def)
  also have "\<dots> = 2"
    by (subst wasm_burning_ship_loop.simps) (simp add: b)
  finally show ?thesis by (simp add: burningShipIterations_def)
qed

lemma spec_bs_eval: "spec_escape_steps (spec_burning_step (2, 0)) (0, 0) 1000 = 2"
  by (simp add: spec_escape_steps_def spec_burning_step_def spec_stop_def numeral_eq_Suc)

subsection \<open>The Mandelbrot kernels at the sample \<open>(2, 2\<^sup>-\<^sup>2\<^sup>5)\<close>\<close>

















subsection \<open>The two Mandelbrot kernels step alike\<close>











subsection \<open>The Julia kernel at the start state \<open>(2, 2\<^sup>-\<^sup>3\<^sup>0)\<close>\<close>












subsection \<open>Newton iteration started at the root 1\<close>

lemma newtonIteration_one: "newtonIteration (Complex 1 0) = Complex 1 0"
proof -
  have one: "Complex 1 0 = 1" by (simp add: complex_eq_iff)
  show ?thesis
    unfolding one by (simp add: newtonIteration_def Let_def)
qed

lemma newton_loop_one: "newton_loop (Complex 1 0) 0 100 = (Complex 1 0, 0)"
  by (subst newton_loop.simps) (simp add: newtonIteration_one CONVERGENCE_THRESHOLD_def Let_def)

lemma identifyRoot_one: "identifyRoot (Complex 1 0) = 1"
  by (simp add: identifyRoot_def ROOT1_REAL_def ROOT1_IMAG_def CONVERGENCE_THRESHOLD_def)

lemma newton_at_root1:
  "newton_pixel \<lparr>nf_width = 801, nf_height = 601, nf_max_iterations = 100\<rparr> 1 0 1 400 300
     = Inr (1, 0)"
  by (simp add: newton_pixel_def ddiv_def Let_def newton_loop_one identifyRoot_one)

section \<open>Properties of the colour mappings\<close>

text \<open>
  Each colour function maps a count equal to its own cap argument to black, and Newton's
  root colours are never black for an iteration count between 0 and the cap.
\<close>

lemma iterations_to_color_cap: "iterations_to_color n n = Inr (RGB 0 0 0)"
  by (simp add: iterations_to_color_def)

lemma iterationsToRGB_cap: "iterationsToRGB this (bs_max_iterations this) = Inr [0, 0, 0]"
  by (simp add: iterationsToRGB_def)

lemma julia_iterations_to_color_cap: "julia_iterations_to_color n n = Inr (0, 0, 0)"
  by (simp add: julia_iterations_to_color_def)

lemma rootToRGB_unresolved: "rootToRGB this 0 iterations = Inr [0, 0, 0]"
  by (simp add: rootToRGB_def)

lemma julia_origin:
  "zx = 0 \<Longrightarrow> zy = 0 \<Longrightarrow> cx = 0 \<Longrightarrow> cy = 0 \<Longrightarrow> i \<le> cap \<Longrightarrow> julia_loop zx zy cx cy i cap = cap"
proof (induction zx zy cx cy i cap rule: julia_loop.induct)
  case (1 zx zy cx cy i cap)
  show ?case
  proof (cases "i < cap")
    case False
    with "1.prems" show ?thesis by (subst julia_loop.simps) simp
  next
    case True
    with "1.prems" have "julia_loop zx zy cx cy i cap = julia_loop 0 0 0 0 (i + 1) cap"
      by (subst julia_loop.simps) (simp add: dops_0 rd_0)
    also have "\<dots> = cap"
      using "1.IH" [OF True refl refl _ refl refl] "1.prems" True by (simp add: dops_0 rd_0)
    finally show ?thesis .
  qed
qed

lemma julia_fail_iter:
  "julia_pixel \<lparr>jp_cx = 0, jp_cy = 0, jp_width = 2, jp_height = 2, jp_max_iterations = 500,
      jp_x_min = - 2, jp_x_max = 2, jp_y_min = - (3 / 2), jp_y_max = 3 / 2\<rparr> 1 1 = Inr 500"
  by (simp add: julia_pixel_def julia_sample_def ddiv_def julia_iterations_def julia_origin)

lemma julia_fail_color:
  "julia_pixel_color \<lparr>jp_cx = 0, jp_cy = 0, jp_width = 2, jp_height = 2, jp_max_iterations = 500,
      jp_x_min = - 2, jp_x_max = 2, jp_y_min = - (3 / 2), jp_y_max = 3 / 2\<rparr> 1 1 = Inr (0, 255, 255)"
  by (simp add: julia_pixel_color_def julia_fail_iter julia_save_ppm_color_def
      julia_iterations_to_color_def ddiv_def to_int_def signed_modulo_int_def Let_def)

lemma double_to_uint8_nonzero:
  assumes "1 \<le> x" "x < 256"
  shows "double_to_uint8 x \<noteq> 0"
proof -
  from assms have pos: "0 < \<lfloor>x\<rfloor>" and lt: "\<lfloor>x\<rfloor> < 256"
    by (simp_all add: floor_less_iff)
  then have "\<not> 256 dvd \<lfloor>x\<rfloor>"
    by (simp add: zdvd_not_zless)
  moreover from assms have "to_int x = \<lfloor>x\<rfloor>" by (simp add: to_int_def)
  ultimately show ?thesis
    by (simp add: double_to_uint8_def word_of_int_eq_0_iff)
qed

lemma rootToRGB_not_black:
  assumes "root_id = 1 \<or> root_id = 2 \<or> root_id = 3"
    and "0 \<le> iterations" and "0 < nf_max_iterations this"
  shows "\<exists>r g b. rootToRGB this root_id iterations = Inr [r, g, b] \<and> r \<noteq> 0 \<and> g \<noteq> 0 \<and> b \<noteq> 0"
proof -
  define m where "m = nf_max_iterations this"
  define cf :: real where "cf = max (3 / 10) (of_int (m - iterations) / of_int m)"
  have "of_int (m - iterations) / (of_int m :: real) \<le> 1"
    using assms(2,3) by (simp add: m_def)
  then have cf: "3 / 10 \<le> cf" "cf \<le> 1" by (simp_all add: cf_def)
  have c50: "double_to_uint8 (50 * cf) \<noteq> 0"
    using cf by (intro double_to_uint8_nonzero) simp_all
  have c255: "double_to_uint8 (255 * cf) \<noteq> 0"
    using cf by (intro double_to_uint8_nonzero) simp_all
  have m0: "(of_int m :: real) \<noteq> 0" using assms(3) by (simp add: m_def)
  from assms(1) show ?thesis
  proof (elim disjE)
    assume "root_id = 1"
    then have "rootToRGB this root_id iterations
        = Inr [double_to_uint8 (255 * cf), double_to_uint8 (50 * cf), double_to_uint8 (50 * cf)]"
      using m0 by (simp add: rootToRGB_def ddiv_def uint8_to_double_def cf_def m_def Let_def)
    with c50 c255 show ?thesis by simp
  next
    assume "root_id = 2"
    then have "rootToRGB this root_id iterations
        = Inr [double_to_uint8 (50 * cf), double_to_uint8 (255 * cf), double_to_uint8 (50 * cf)]"
      using m0 by (simp add: rootToRGB_def ddiv_def uint8_to_double_def cf_def m_def Let_def)
    with c50 c255 show ?thesis by simp
  next
    assume "root_id = 3"
    then have "rootToRGB this root_id iterations
        = Inr [double_to_uint8 (50 * cf), double_to_uint8 (50 * cf), double_to_uint8 (255 * cf)]"
      using m0 by (simp add: rootToRGB_def ddiv_def uint8_to_double_def cf_def m_def Let_def)
    with c50 c255 show ?thesis by simp
  qed
qed

section \<open>Properties of the Mandelbrot renderer\<close>

lemma mandelbrot_iterations_cap0: "mandelbrot_iterations re im 0 = 0"
  unfolding mandelbrot_iterations_def by (subst mandelbrot_loop.simps) simp

lemma iterations_to_color_fault:
  "iterations_to_color n m = Inl e \<Longrightarrow> e = FloatDivByZero \<and> m = 0 \<and> n \<noteq> 0"
  by (auto simp add: iterations_to_color_def ddiv_def split: if_splits)

lemma pixel_color_fault: "pixel_color params px py = Inl e \<Longrightarrow> e = FloatDivByZero"
  by (auto simp add: pixel_color_def pixel_real_def pixel_imag_def ddiv_def Let_def
      dest: iterations_to_color_fault split: sum.splits if_splits)

lemma pixel_color_ok:
  assumes "width params \<noteq> 1" and "height params \<noteq> 1"
  shows "\<exists>c. pixel_color params px py = Inr c"
proof (cases "pixel_color params px py")
  case (Inr c)
  then show ?thesis by simp
next
  case (Inl e)
  then obtain re im where
    "iterations_to_color (mandelbrot_iterations re im (max_iter params)) (max_iter params) = Inl e"
    using assms
    by (auto simp add: pixel_color_def pixel_real_def pixel_imag_def ddiv_def Let_def
        split: sum.splits if_splits)
  from iterations_to_color_fault [OF this] have False
    by (auto simp add: mandelbrot_iterations_cap0)
  then show ?thesis ..
qed

lemma px_loop_fault: "px_loop params py px image_data = Inl e \<Longrightarrow> e = FloatDivByZero"
proof (induction params py px image_data rule: px_loop.induct)
  case (1 params py px image_data)
  show ?case
  proof (cases "px < width params")
    case False
    with "1.prems" show ?thesis by (subst (asm) px_loop.simps) simp
  next
    case True
    show ?thesis
    proof (cases "pixel_color params px py")
      case (Inl e')
      with True "1.prems" have "e = e'" by (subst (asm) px_loop.simps) simp
      with Inl pixel_color_fault show ?thesis by simp
    next
      case (Inr c)
      with True "1.prems" "1.IH" [OF True Inr refl] show ?thesis
        by (subst (asm) px_loop.simps) (simp add: Let_def)
    qed
  qed
qed

lemma px_loop_ok:
  "width params \<noteq> 1 \<Longrightarrow> height params \<noteq> 1 \<Longrightarrow>
     \<exists>img. px_loop params py px image_data = Inr img \<and> length img = length image_data"
proof (induction params py px image_data rule: px_loop.induct)
  case (1 params py px image_data)
  show ?case
  proof (cases "px < width params")
    case False
    then show ?thesis by (subst px_loop.simps) simp
  next
    case True
    from pixel_color_ok [OF "1.prems", of px py]
    obtain c where c: "pixel_color params px py = Inr c" ..
    from "1.IH" [OF True c refl "1.prems"] True c show ?thesis
      by (subst px_loop.simps) (simp add: Let_def)
  qed
qed

lemma sdiv_10_iff: "0 < h \<Longrightarrow> h sdiv 10 \<noteq> 0 \<longleftrightarrow> 10 \<le> (h::int)"
  by (simp add: signed_divide_int_def) presburger

lemma progress_report_small:
  "0 < height params \<Longrightarrow> height params < 10 \<Longrightarrow> progress_report params py w = Inl IntModByZero"
  using sdiv_10_iff [of "height params"] by (simp add: progress_report_def)

lemma progress_report_not_mod:
  "10 \<le> height params \<Longrightarrow> progress_report params py w \<noteq> Inl IntModByZero"
  using sdiv_10_iff [of "height params"] by (simp add: progress_report_def)

lemma progress_report_ok:
  assumes "10 \<le> height params" and "0 \<le> py" and "py < height params"
    and "100 * height params \<le> 2 ^ 31 - 1"
  shows "\<exists>w'. progress_report params py w = Inr w'"
proof -
  from assms have "int_range (py * 100)" by (simp add: int_range_def)
  with sdiv_10_iff [of "height params"] assms(1) show ?thesis
    by (simp add: progress_report_def)
qed

lemma progress_report_world:
  "(\<exists>e. \<forall>w. progress_report params py w = Inl e) \<or> (\<forall>w. \<exists>w'. progress_report params py w = Inr w')"
  by (cases "height params sdiv 10 = 0"; cases "py smod (height params sdiv 10) = 0";
      cases "int_range (py * 100)"; simp add: progress_report_def)

lemma py_loop_world:
  "fst (py_loop params py image_data w) = fst (py_loop params py image_data w')"
proof (induction "nat (height params - py)" arbitrary: py image_data w w')
  case 0
  then have "\<not> py < height params" by simp
  then show ?case by (simp add: py_loop.simps [of params py])
next
  case (Suc n)
  then have lt: "py < height params" and n: "n = nat (height params - (py + 1))" by simp_all
  show ?case
  proof (cases "px_loop params py 0 image_data")
    case (Inl e)
    with lt show ?thesis by (simp add: py_loop.simps [of params py])
  next
    case (Inr img)
    from progress_report_world [of params py] show ?thesis
    proof
      assume "\<exists>e. \<forall>w. progress_report params py w = Inl e"
      then obtain e where "\<And>w. progress_report params py w = Inl e" by blast
      with lt Inr show ?thesis by (simp add: py_loop.simps [of params py])
    next
      assume *: "\<forall>w. \<exists>w'. progress_report params py w = Inr w'"
      then obtain v v' where v: "progress_report params py w = Inr v"
        and v': "progress_report params py w' = Inr v'" by blast
      from Suc.hyps(1) [OF n, of img v v'] lt Inr v v' show ?thesis
        by (simp add: py_loop.simps [of params py])
    qed
  qed
qed

lemma render_world:
  "fst (render_mandelbrot_cpu params w) = fst (render_mandelbrot_cpu params w')"
proof -
  define img :: "byte list" where "img = replicate (nat (width params * height params * 3)) 0"
  have "\<And>v. fst (render_mandelbrot_cpu params v)
      = (if int_range (width params * height params) \<and> int_range (width params * height params * 3)
         then (if width params * height params * 3 < 0 then Inl LengthError
               else fst (py_loop params 0 img (snd (now (cout (LogRenderStart params) v)))))
         else Inl IntOverflow)"
    by (simp add: render_mandelbrot_cpu_def Let_def img_def split: prod.splits sum.splits)
  then show ?thesis
    using py_loop_world by simp
qed

lemma py_loop_ok:
  "2 \<le> width params \<Longrightarrow> 10 \<le> height params \<Longrightarrow> 100 * height params \<le> 2 ^ 31 - 1 \<Longrightarrow> 0 \<le> py \<Longrightarrow>
     \<exists>img w'. py_loop params py image_data w = (Inr img, w') \<and> length img = length image_data"
proof (induction params py image_data w rule: py_loop.induct)
  case (1 params py image_data w)
  show ?case
  proof (cases "py < height params")
    case False
    then show ?thesis by (subst py_loop.simps) simp
  next
    case True
    from px_loop_ok [of params py 0 image_data] "1.prems"
    obtain img where img: "px_loop params py 0 image_data = Inr img"
      and len: "length img = length image_data" by auto
    from progress_report_ok [of params py w] "1.prems" True
    obtain v where v: "progress_report params py w = Inr v" by auto
    from "1.IH" [OF True img v] "1.prems" True img v len show ?thesis
      by (subst py_loop.simps) simp
  qed
qed

lemma py_loop_not_mod:
  "10 \<le> height params \<Longrightarrow> fst (py_loop params py image_data w) \<noteq> Inl IntModByZero"
proof (induction params py image_data w rule: py_loop.induct)
  case (1 params py image_data w)
  show ?case
  proof (cases "py < height params")
    case False
    then show ?thesis by (subst py_loop.simps) simp
  next
    case True
    show ?thesis
    proof (cases "px_loop params py 0 image_data")
      case (Inl e)
      with px_loop_fault [OF Inl] True show ?thesis
        by (subst py_loop.simps) simp
    next
      case (Inr img)
      show ?thesis
      proof (cases "progress_report params py w")
        case (Inl e)
        with progress_report_not_mod [OF "1.prems", of py w] True Inr show ?thesis
          by (subst py_loop.simps) auto
      next
        case v: (Inr v)
        from "1.IH" [OF True Inr v "1.prems"] True Inr v show ?thesis
          by (subst py_loop.simps) simp
      qed
    qed
  qed
qed

lemma render_fst:
  "fst (render_mandelbrot_cpu params v)
      = (if int_range (width params * height params) \<and> int_range (width params * height params * 3)
         then (if width params * height params * 3 < 0 then Inl LengthError
               else fst (py_loop params 0 (replicate (nat (width params * height params * 3)) 0)
                      (snd (now (cout (LogRenderStart params) v)))))
         else Inl IntOverflow)"
  by (simp add: render_mandelbrot_cpu_def Let_def split: prod.splits sum.splits)

lemma render_not_mod:
  "10 \<le> height params \<Longrightarrow> fst (render_mandelbrot_cpu params w) \<noteq> Inl IntModByZero"
  using py_loop_not_mod by (simp add: render_fst)

lemma render_ok:
  assumes "2 \<le> width params" and "10 \<le> height params"
    and "100 * height params \<le> 2 ^ 31 - 1" and "3 * (width params * height params) \<le> 2 ^ 31 - 1"
  shows "\<exists>buf. fst (render_mandelbrot_cpu params w) = Inr buf
           \<and> length buf = nat (3 * (width params * height params))"
proof -
  from assms(1,2) have pos: "0 < width params * height params" by simp
  with assms(4) have r: "int_range (width params * height params)"
    "int_range (width params * height params * 3)" by (simp_all add: int_range_def)
  from py_loop_ok [OF assms(1,2,3), of 0] obtain img w' where
    "py_loop params 0 (replicate (nat (width params * height params * 3)) 0)
        (snd (now (cout (LogRenderStart params) w))) = (Inr img, w')"
    "length img = nat (width params * height params * 3)"
    by (metis length_replicate order_refl)
  with r pos show ?thesis by (simp add: render_fst mult.commute)
qed

lemma render_small_height:
  assumes "2 \<le> width params" and "2 \<le> height params" and "height params < 10"
    and "3 * (width params * height params) \<le> 2 ^ 31 - 1"
  shows "fst (render_mandelbrot_cpu params w) = Inl IntModByZero"
proof -
  from assms(1,2) have pos: "0 < width params * height params" by simp
  with assms(4) have r: "int_range (width params * height params)"
    "int_range (width params * height params * 3)" by (simp_all add: int_range_def)
  obtain img where "px_loop params 0 0 (replicate (nat (width params * height params * 3)) 0) = Inr img"
    using px_loop_ok [of params 0 0] assms(1,2) by fastforce
  with assms(2,3) have "fst (py_loop params 0 (replicate (nat (width params * height params * 3)) 0)
        (snd (now (cout (LogRenderStart params) w)))) = Inl IntModByZero"
    by (subst py_loop.simps) (simp add: progress_report_small)
  with r pos show ?thesis by (simp add: render_fst mult.commute)
qed

subsection \<open>What the pixel loops write\<close>

text \<open>
  The three bytes of pixel \<open>(px, py)\<close> are stored at the indices
  \<open>(py * width + px) * 3\<close>, \<open>+ 1\<close> and \<open>+ 2\<close>.  The inner loop started at column \<open>px0\<close>
  leaves every cell before \<open>(py * width + px0) * 3\<close> as it was, so a cell keeps the value
  written for its own pixel until the render returns.
\<close>

lemma idx_step:
  "j < nat ((A + px) * 3) \<Longrightarrow> 0 \<le> px \<Longrightarrow> 0 \<le> (A::int) \<Longrightarrow> j < nat ((A + (px + 1)) * 3)"
  by (simp add: algebra_simps)

lemma idx_in_row:
  "nat ((A + W) * 3) \<le> n \<Longrightarrow> px < W \<Longrightarrow> 0 \<le> px \<Longrightarrow> 0 \<le> (A::int)
     \<Longrightarrow> nat ((A + px) * 3 + 2) < n"
  by (simp add: algebra_simps)

lemma idx_before_next:
  "0 \<le> px \<Longrightarrow> 0 \<le> (A::int) \<Longrightarrow>
     nat ((A + px) * 3) < nat ((A + (px + 1)) * 3)
     \<and> nat ((A + px) * 3 + 1) < nat ((A + (px + 1)) * 3)
     \<and> nat ((A + px) * 3 + 2) < nat ((A + (px + 1)) * 3)"
  by (simp add: algebra_simps)

lemma idx_distinct:
  "0 \<le> px \<Longrightarrow> 0 \<le> (A::int) \<Longrightarrow>
     nat ((A + px) * 3) \<noteq> nat ((A + px) * 3 + 1)
     \<and> nat ((A + px) * 3) \<noteq> nat ((A + px) * 3 + 2)
     \<and> nat ((A + px) * 3 + 1) \<noteq> nat ((A + px) * 3 + 2)
     \<and> nat ((A + px) * 3) < nat ((A + px) * 3 + 2)
     \<and> nat ((A + px) * 3 + 1) < nat ((A + px) * 3 + 2)"
proof -
  assume "0 \<le> px" "0 \<le> A"
  then have "0 \<le> (A + px) * 3" by simp
  then show ?thesis by (simp add: nat_eq_iff)
qed

lemma px_loop_step:
  "px < width params \<Longrightarrow> pixel_color params px py = Inr c \<Longrightarrow>
     px_loop params py px img
       = px_loop params py (px + 1)
           (img[nat ((py * width params + px) * 3) := rgb_r c,
                nat ((py * width params + px) * 3 + 1) := rgb_g c,
                nat ((py * width params + px) * 3 + 2) := rgb_b c])"
  by (subst px_loop.simps) (simp add: Let_def)

lemma px_loop_frame:
  "px_loop params py px0 img = Inr img' \<Longrightarrow> 0 \<le> py \<Longrightarrow> 0 \<le> px0 \<Longrightarrow> 0 \<le> width params \<Longrightarrow>
     j < nat ((py * width params + px0) * 3) \<Longrightarrow> img' ! j = img ! j"
proof (induction params py px0 img rule: px_loop.induct)
  case (1 params py px img)
  show ?case
  proof (cases "px < width params")
    case False
    with "1.prems"(1) show ?thesis by (subst (asm) px_loop.simps) simp
  next
    case True
    from "1.prems"(1) True obtain c where c: "pixel_color params px py = Inr c"
      by (subst (asm) px_loop.simps) (auto split: sum.splits)
    let ?i = "(py * width params + px) * 3"
    let ?img1 = "img[nat ?i := rgb_r c, nat (?i + 1) := rgb_g c, nat (?i + 2) := rgb_b c]"
    from "1.prems"(1) True c have rec: "px_loop params py (px + 1) ?img1 = Inr img'"
      by (simp add: px_loop_step)
    have nn: "0 \<le> py * width params" using "1.prems"(2,4) by simp
    have j1: "j < nat ((py * width params + (px + 1)) * 3)"
      using "1.prems"(5) "1.prems"(3) nn by (rule idx_step)
    have "img' ! j = ?img1 ! j"
      using "1.IH" [OF True c refl rec "1.prems"(2) _ "1.prems"(4) j1] "1.prems"(3) by simp
    also have "\<dots> = img ! j"
      using "1.prems"(5) "1.prems"(3) nn by simp
    finally show ?thesis .
  qed
qed

lemma px_loop_written:
  "px_loop params py px0 img = Inr img' \<Longrightarrow> 0 \<le> py \<Longrightarrow> 0 \<le> px0 \<Longrightarrow> px0 \<le> px \<Longrightarrow>
     px < width params \<Longrightarrow> nat ((py * width params + width params) * 3) \<le> length img \<Longrightarrow>
     \<exists>c. pixel_color params px py = Inr c
        \<and> img' ! nat ((py * width params + px) * 3) = rgb_r c
        \<and> img' ! nat ((py * width params + px) * 3 + 1) = rgb_g c
        \<and> img' ! nat ((py * width params + px) * 3 + 2) = rgb_b c"
proof (induction params py px0 img rule: px_loop.induct)
  case (1 params py px0 img)
  from "1.prems"(4,5) have lt: "px0 < width params" by simp
  from "1.prems"(1) lt obtain c where c: "pixel_color params px0 py = Inr c"
    by (subst (asm) px_loop.simps) (auto split: sum.splits)
  let ?i = "(py * width params + px0) * 3"
  let ?img1 = "img[nat ?i := rgb_r c, nat (?i + 1) := rgb_g c, nat (?i + 2) := rgb_b c]"
  from "1.prems"(1) lt c have rec: "px_loop params py (px0 + 1) ?img1 = Inr img'"
    by (simp add: px_loop_step)
  have w: "0 \<le> width params" using "1.prems"(3) lt by simp
  have nn: "0 \<le> py * width params" using "1.prems"(2) w by simp
  show ?case
  proof (cases "px = px0")
    case False
    with "1.prems"(4) have le: "px0 + 1 \<le> px" by simp
    from "1.IH" [OF lt c refl rec "1.prems"(2) _ le "1.prems"(5)] "1.prems"(3,6)
    show ?thesis by simp
  next
    case True
    have len: "nat (?i + 2) < length img"
      using "1.prems"(6) lt "1.prems"(3) nn by (rule idx_in_row)
    have fr: "\<And>j. j < nat ((py * width params + (px0 + 1)) * 3) \<Longrightarrow> img' ! j = ?img1 ! j"
      using px_loop_frame [OF rec "1.prems"(2) _ w] "1.prems"(3) by simp
    note bn = idx_before_next [OF "1.prems"(3) nn]
    note ds = idx_distinct [OF "1.prems"(3) nn]
    have "img' ! nat ?i = ?img1 ! nat ?i"
      using bn by (intro fr) simp
    moreover have "img' ! nat (?i + 1) = ?img1 ! nat (?i + 1)"
      using bn by (intro fr) simp
    moreover have "img' ! nat (?i + 2) = ?img1 ! nat (?i + 2)"
      using bn by (intro fr) simp
    moreover have "?img1 ! nat ?i = rgb_r c" "?img1 ! nat (?i + 1) = rgb_g c"
      "?img1 ! nat (?i + 2) = rgb_b c"
      using len ds by (simp_all add: nth_list_update)
    ultimately show ?thesis using c True by simp
  qed
qed

lemma px_loop_length:
  "px_loop params py px0 img = Inr img' \<Longrightarrow> length img' = length img"
proof (induction params py px0 img rule: px_loop.induct)
  case (1 params py px img)
  show ?case
  proof (cases "px < width params")
    case False
    with "1.prems" show ?thesis by (subst (asm) px_loop.simps) simp
  next
    case True
    from "1.prems" True obtain c where c: "pixel_color params px py = Inr c"
      by (subst (asm) px_loop.simps) (auto split: sum.splits)
    from "1.prems" True c "1.IH" [OF True c refl] show ?thesis
      by (simp add: px_loop_step)
  qed
qed

lemma py_loop_step:
  "py < height params \<Longrightarrow> px_loop params py 0 img = Inr img1 \<Longrightarrow>
     progress_report params py w = Inr w1 \<Longrightarrow>
     py_loop params py img w = py_loop params (py + 1) img1 w1"
  by (subst py_loop.simps) simp

lemma py_loop_Inr_step:
  assumes "py_loop params py img w = (Inr img', w')" and "py < height params"
  obtains img1 w1 where "px_loop params py 0 img = Inr img1"
    and "progress_report params py w = Inr w1"
    and "py_loop params (py + 1) img1 w1 = (Inr img', w')"
proof -
  from assms obtain img1 where a: "px_loop params py 0 img = Inr img1"
    by (subst (asm) py_loop.simps) (auto split: sum.splits)
  from assms a obtain w1 where b: "progress_report params py w = Inr w1"
    by (subst (asm) py_loop.simps) (auto split: sum.splits)
  from assms a b have "py_loop params (py + 1) img1 w1 = (Inr img', w')"
    by (simp add: py_loop_step)
  with a b that show ?thesis by blast
qed

lemma row_start_mono:
  "0 \<le> py \<Longrightarrow> 0 \<le> (W::int) \<Longrightarrow> j < nat ((py * W + 0) * 3) \<Longrightarrow> j < nat (((py + 1) * W + 0) * 3)"
  by (simp add: algebra_simps)

lemma py_loop_frame:
  "py_loop params py0 img w = (Inr img', w') \<Longrightarrow> 0 \<le> py0 \<Longrightarrow> 0 \<le> width params \<Longrightarrow>
     j < nat ((py0 * width params + 0) * 3) \<Longrightarrow> img' ! j = img ! j"
proof (induction params py0 img w rule: py_loop.induct)
  case (1 params py img w)
  show ?case
  proof (cases "py < height params")
    case False
    with "1.prems"(1) show ?thesis by (subst (asm) py_loop.simps) simp
  next
    case True
    from "1.prems"(1) True obtain img1 w1 where
      row: "px_loop params py 0 img = Inr img1" and
      pr: "progress_report params py w = Inr w1" and
      rec: "py_loop params (py + 1) img1 w1 = (Inr img', w')"
      by (rule py_loop_Inr_step)
    have j1: "j < nat (((py + 1) * width params + 0) * 3)"
      using "1.prems"(2,3,4) by (rule row_start_mono)
    have "img' ! j = img1 ! j"
      using "1.IH" [OF True row pr rec _ "1.prems"(3) j1] "1.prems"(2) by simp
    also have "\<dots> = img ! j"
      using px_loop_frame [OF row "1.prems"(2) _ "1.prems"(3) "1.prems"(4)] by simp
    finally show ?thesis .
  qed
qed

lemma row_within:
  assumes "0 \<le> py" and "py < H" and "0 \<le> (W::int)"
  shows "nat ((py * W + W) * 3) \<le> nat (H * W * 3)"
proof -
  from assms have "(py + 1) * W \<le> H * W" by (intro mult_right_mono) simp_all
  then show ?thesis by (simp add: algebra_simps)
qed

lemma cell_before_next_row:
  "0 \<le> py \<Longrightarrow> 0 \<le> px \<Longrightarrow> px < (W::int) \<Longrightarrow>
     nat ((py * W + px) * 3) < nat (((py + 1) * W + 0) * 3)
     \<and> nat ((py * W + px) * 3 + 1) < nat (((py + 1) * W + 0) * 3)
     \<and> nat ((py * W + px) * 3 + 2) < nat (((py + 1) * W + 0) * 3)"
proof -
  assume py: "0 \<le> py" and px: "0 \<le> px" "px < W"
  then have nn: "0 \<le> py * W" by simp
  have eq: "((py + 1) * W + 0) * 3 = (py * W + W) * 3" by (simp add: algebra_simps)
  have "nat ((py * W + px) * 3 + 2) < nat ((py * W + W) * 3)"
    using px nn by (intro idx_in_row [of "py * W" W]) simp_all
  with idx_distinct [OF px(1) nn] show ?thesis unfolding eq by linarith
qed

lemma py_loop_written:
  "py_loop params py0 img w = (Inr img', w') \<Longrightarrow> 0 \<le> py0 \<Longrightarrow> py0 \<le> py \<Longrightarrow>
     py < height params \<Longrightarrow> 0 \<le> px \<Longrightarrow> px < width params \<Longrightarrow>
     nat (height params * width params * 3) \<le> length img \<Longrightarrow>
     \<exists>c. pixel_color params px py = Inr c
        \<and> img' ! nat ((py * width params + px) * 3) = rgb_r c
        \<and> img' ! nat ((py * width params + px) * 3 + 1) = rgb_g c
        \<and> img' ! nat ((py * width params + px) * 3 + 2) = rgb_b c"
proof (induction params py0 img w rule: py_loop.induct)
  case (1 params py0 img w)
  from "1.prems"(3,4) have lt: "py0 < height params" by simp
  from "1.prems"(5,6) have w: "0 \<le> width params" by simp
  from "1.prems"(1) lt obtain img1 w1 where
    row: "px_loop params py0 0 img = Inr img1" and
    pr: "progress_report params py0 w = Inr w1" and
    rec: "py_loop params (py0 + 1) img1 w1 = (Inr img', w')"
    by (rule py_loop_Inr_step)
  have len1: "length img1 = length img" using row by (rule px_loop_length)
  show ?case
  proof (cases "py = py0")
    case False
    with "1.prems"(3) have le: "py0 + 1 \<le> py" by simp
    from "1.IH" [OF lt row pr rec _ le "1.prems"(4,5,6)] "1.prems"(2,7) len1
    show ?thesis by simp
  next
    case True
    have "nat ((py0 * width params + width params) * 3) \<le> length img"
      using row_within [OF "1.prems"(2) lt w] "1.prems"(7) by simp
    from px_loop_written [OF row "1.prems"(2) _ "1.prems"(5,6) this]
    obtain c where c: "pixel_color params px py0 = Inr c"
      "img1 ! nat ((py0 * width params + px) * 3) = rgb_r c"
      "img1 ! nat ((py0 * width params + px) * 3 + 1) = rgb_g c"
      "img1 ! nat ((py0 * width params + px) * 3 + 2) = rgb_b c"
      by auto
    have fr: "\<And>j. j < nat (((py0 + 1) * width params + 0) * 3) \<Longrightarrow> img' ! j = img1 ! j"
      using py_loop_frame [OF rec _ w] "1.prems"(2) by simp
    note cb = cell_before_next_row [OF "1.prems"(2) "1.prems"(5,6)]
    have "img' ! nat ((py0 * width params + px) * 3) = img1 ! nat ((py0 * width params + px) * 3)"
      using cb by (intro fr) simp
    moreover have "img' ! nat ((py0 * width params + px) * 3 + 1)
        = img1 ! nat ((py0 * width params + px) * 3 + 1)"
      using cb by (intro fr) simp
    moreover have "img' ! nat ((py0 * width params + px) * 3 + 2)
        = img1 ! nat ((py0 * width params + px) * 3 + 2)"
      using cb by (intro fr) simp
    ultimately show ?thesis using c True by simp
  qed
qed

lemma render_pixels:
  assumes "fst (render_mandelbrot_cpu params w) = Inr buf"
    and "0 \<le> px" and "px < width params" and "0 \<le> py" and "py < height params"
  shows "\<exists>c. pixel_color params px py = Inr c
        \<and> buf ! nat ((py * width params + px) * 3) = rgb_r c
        \<and> buf ! nat ((py * width params + px) * 3 + 1) = rgb_g c
        \<and> buf ! nat ((py * width params + px) * 3 + 2) = rgb_b c"
proof -
  let ?img = "replicate (nat (width params * height params * 3)) (0::byte)"
  let ?w2 = "snd (now (cout (LogRenderStart params) w))"
  from assms(1) have "fst (py_loop params 0 ?img ?w2) = Inr buf"
    by (simp add: render_fst split: if_splits)
  then obtain w' where loop: "py_loop params 0 ?img ?w2 = (Inr buf, w')"
    by (cases "py_loop params 0 ?img ?w2") simp
  have len: "nat (height params * width params * 3) \<le> length ?img"
    by (simp add: mult.commute)
  from py_loop_written [OF loop _ assms(4,5,2,3) len] show ?thesis by simp
qed

section \<open>The claims\<close>

text \<open>
  Claim C1 (found false for the Burning Ship kernel).  The claim: every escape-time
  kernel returns the iteration index at which \<open>|z|\<^sup>2 > 4\<close> first holds, or the cap.
  \<open>computeBurningShip\<close> continues only while \<open>|z|\<^sup>2 < 4\<close>, so it also stops at
  \<open>|z|\<^sup>2 = 4\<close>: for the sample \<open>c = (2, 0)\<close> the orbit is 0, 2, 6 (every number met on the
  way is a double, no operation rounds), the stop condition first holds at index 2, and
  the kernel returns 1.  The WebAssembly kernel \<open>burningShipIterations\<close> of the same
  repository returns 2 there.
\<close>

theorem burning_ship_boundary_divergence:
  "computeBurningShip \<lparr>bs_width = 800, bs_height = 600, bs_max_iterations = 1000\<rparr> 2 0 = 1
   \<and> spec_escape_steps (spec_burning_step (2, 0)) (0, 0) 1000 = 2
   \<and> burningShipIterations 2 0 1000 = 2"
  by (simp add: bs_eval wasm_bs_eval spec_bs_eval)




text \<open>
  Claim C3 (found false for the Julia renderer).  The claim: a pixel whose kernel result
  equals \<open>max_iterations\<close> is coloured (0, 0, 0).  \<open>iterations_to_color_cap\<close>,
  \<open>iterationsToRGB_cap\<close>, \<open>rootToRGB_unresolved\<close> and \<open>rootToRGB_not_black\<close> above show the
  claim for the Mandelbrot, Burning Ship and Newton colour functions.  The Julia
  \<open>save_ppm\<close> compares the stored count with the constant 1000 instead of the cap of the
  render: with \<open>max_iterations = 500\<close>, \<open>c = 0\<close>, a 2 by 2 image and the default bounds,
  pixel (1, 1) is sampled at the origin and never escapes, its kernel result is 500, and
  it is written as (0, 255, 255).
\<close>

theorem julia_cap_pixel_not_black:
  "julia_pixel \<lparr>jp_cx = 0, jp_cy = 0, jp_width = 2, jp_height = 2, jp_max_iterations = 500,
      jp_x_min = - 2, jp_x_max = 2, jp_y_min = - (3 / 2), jp_y_max = 3 / 2\<rparr> 1 1 = Inr 500
   \<and> julia_pixel_color \<lparr>jp_cx = 0, jp_cy = 0, jp_width = 2, jp_height = 2,
      jp_max_iterations = 500,
      jp_x_min = - 2, jp_x_max = 2, jp_y_min = - (3 / 2), jp_y_max = 3 / 2\<rparr> 1 1 = Inr (0, 255, 255)"
  by (simp add: julia_fail_iter julia_fail_color)

text \<open>
  Claim C4, as stated, fails for the Julia renderer: for \<open>W = 801\<close>, \<open>H = 601\<close> and the
  bounds \<open>[-2, 1] \<times> [-1.2, 1.2]\<close> the sample of pixel (400, 300) is not the point
  \<open>(x_min + (x_max - x_min) * 400 / (W - 1), y_min + (y_max - y_min) * 300 / (H - 1))\<close>.
\<close>

theorem julia_sample_counterexample:
  "julia_sample \<lparr>jp_cx = - 0.7269, jp_cy = 0.1889, jp_width = 801, jp_height = 601,
       jp_max_iterations = 1000, jp_x_min = - 2, jp_x_max = 1, jp_y_min = - 1.2, jp_y_max = 1.2\<rparr>
     400 300
   \<noteq> Inr (- 2 + (1 - (- 2)) * 400 / (801 - 1), - 1.2 + (1.2 - (- 1.2)) * 300 / (601 - 1))"
  by (simp add: julia_sample_def ddiv_def Let_def)

text \<open>
  Claim C4, amended.  In \<open>render_mandelbrot_cpu\<close>, for \<open>W > 1\<close> the real part of the sample
  of column \<open>px\<close> is \<open>x_min + (x_max - x_min) * px / (W - 1)\<close> and for \<open>H > 1\<close> the imaginary
  part of the sample of row \<open>py\<close> is \<open>y_min + (y_max - y_min) * py / (H - 1)\<close>, and the colour
  computed for pixel \<open>(px, py)\<close> is the colour of the kernel's result at this sample; in
  \<open>JuliaRenderer::render\<close>, for \<open>W > 0\<close> and \<open>H > 0\<close> the sample of pixel \<open>(px, py)\<close> is
  \<open>(x_min + px * ((x_max - x_min) / W), y_min + py * ((y_max - y_min) / H))\<close>.  For
  \<open>W = 801\<close> and the bounds \<open>[-2, 1] \<times> [-1.2, 1.2]\<close> the Mandelbrot renderer maps \<open>px = 400\<close>
  to \<open>re = -0.5\<close>, whatever the height.
\<close>

theorem viewport_mapping:
  "(1 < width params \<longrightarrow>
      pixel_real params px
        = Inr (x_min params + (x_max params - x_min params) * of_int px / of_int (width params - 1)))
   \<and> (1 < height params \<longrightarrow>
      pixel_imag params py
        = Inr (y_min params + (y_max params - y_min params) * of_int py / of_int (height params - 1)))
   \<and> (1 < width params \<and> 1 < height params \<longrightarrow>
      pixel_color params px py
        = iterations_to_color
            (mandelbrot_iterations
               (x_min params + (x_max params - x_min params) * of_int px / of_int (width params - 1))
               (y_min params + (y_max params - y_min params) * of_int py / of_int (height params - 1))
               (max_iter params))
            (max_iter params))
   \<and> (0 < jp_width jp \<and> 0 < jp_height jp \<longrightarrow>
      julia_sample jp px py
        = Inr (jp_x_min jp + of_int px * ((jp_x_max jp - jp_x_min jp) / of_int (jp_width jp)),
               jp_y_min jp + of_int py * ((jp_y_max jp - jp_y_min jp) / of_int (jp_height jp))))
   \<and> pixel_real \<lparr>width = 801, height = h, max_iter = m, x_min = - 2, x_max = 1,
         y_min = - 1.2, y_max = 1.2\<rparr> 400 = Inr (- (1 / 2))"
  by (simp add: pixel_color_def pixel_real_def pixel_imag_def julia_sample_def ddiv_def Let_def)

theorem viewport_mapping_witness:
  "(1::int) < 801 \<and> (1::int) < 601 \<and> (0::int) < 800 \<and> (0::int) < 600
   \<and> pixel_real \<lparr>width = 801, height = 601, max_iter = 1000, x_min = - 2, x_max = 1,
         y_min = - 1.2, y_max = 1.2\<rparr> 400 = Inr (- (1 / 2))
   \<and> pixel_imag \<lparr>width = 801, height = 601, max_iter = 1000, x_min = - 2, x_max = 1,
         y_min = - 1.2, y_max = 1.2\<rparr> 300 = Inr 0
   \<and> pixel_color \<lparr>width = 801, height = 601, max_iter = 1000, x_min = - 2, x_max = 1,
         y_min = - 1.2, y_max = 1.2\<rparr> 400 300
       = iterations_to_color (mandelbrot_iterations (- (1 / 2)) 0 1000) 1000
   \<and> julia_sample \<lparr>jp_cx = - 0.7269, jp_cy = 0.1889, jp_width = 800, jp_height = 600,
         jp_max_iterations = 1000, jp_x_min = - 2, jp_x_max = 2, jp_y_min = - 1.5,
         jp_y_max = 1.5\<rparr> 400 300 = Inr (0, 0)"
  using viewport_mapping [of "\<lparr>width = 801, height = 601, max_iter = 1000, x_min = - 2, x_max = 1,
         y_min = - 1.2, y_max = 1.2\<rparr>" 400 300
      "\<lparr>jp_cx = - 0.7269, jp_cy = 0.1889, jp_width = 800, jp_height = 600,
         jp_max_iterations = 1000, jp_x_min = - 2, jp_x_max = 2, jp_y_min = - 1.5,
         jp_y_max = 1.5\<rparr>" 601 1000]
  by simp

text \<open>
  Claim C5, as stated, fails: \<open>render_mandelbrot_cpu\<close> checks nothing.  Called with
  \<open>x_min = 1 \<ge> x_max = -2\<close> it returns a pixel buffer, not a failure; called with
  \<open>W = 0\<close> and \<open>H = 0\<close> it returns the empty buffer.
\<close>

theorem render_without_validation_counterexample:
  "x_min \<lparr>width = 800, height = 600, max_iter = 1000, x_min = 1, x_max = - 2,
        y_min = - 1.2, y_max = 1.2\<rparr>
     \<ge> x_max \<lparr>width = 800, height = 600, max_iter = 1000, x_min = 1, x_max = - 2,
        y_min = - 1.2, y_max = 1.2\<rparr>
   \<and> \<not> isl (fst (render_mandelbrot_cpu
        \<lparr>width = 800, height = 600, max_iter = 1000, x_min = 1, x_max = - 2,
         y_min = - 1.2, y_max = 1.2\<rparr>
        \<lparr>clock = int, reads = 0, console = []\<rparr>))
   \<and> fst (render_mandelbrot_cpu
        \<lparr>width = 0, height = 0, max_iter = 1000, x_min = - 2, x_max = 1,
         y_min = - 1.2, y_max = 1.2\<rparr>
        \<lparr>clock = int, reads = 0, console = []\<rparr>) = Inr []"
proof -
  have "\<exists>buf. fst (render_mandelbrot_cpu
        \<lparr>width = 800, height = 600, max_iter = 1000, x_min = 1, x_max = - 2,
         y_min = - 1.2, y_max = 1.2\<rparr>
        \<lparr>clock = int, reads = 0, console = []\<rparr>) = Inr buf
      \<and> length buf = nat (3 * (width \<lparr>width = 800, height = 600, max_iter = 1000, x_min = 1, x_max = - 2,
         y_min = - 1.2, y_max = 1.2\<rparr> * height \<lparr>width = 800, height = 600, max_iter = 1000, x_min = 1, x_max = - 2,
         y_min = - 1.2, y_max = 1.2\<rparr>))"
    by (rule render_ok) simp_all
  moreover have "fst (render_mandelbrot_cpu
        \<lparr>width = 0, height = 0, max_iter = 1000, x_min = - 2, x_max = 1,
         y_min = - 1.2, y_max = 1.2\<rparr>
        \<lparr>clock = int, reads = 0, console = []\<rparr>) = Inr []"
    by (simp add: render_fst int_range_def py_loop.simps)
  ultimately show ?thesis by auto
qed

text \<open>
  Claim C5, amended.  The validation is done by \<open>main\<close> before it calls the renderer, in
  this order: it fails for the dimensions exactly when \<open>W \<le> 0\<close> or \<open>H \<le> 0\<close>; for the
  iteration budget exactly when the dimensions are positive and \<open>max_iter \<le> 0\<close>; for the
  viewport exactly when dimensions and budget are positive and \<open>x_min \<ge> x_max\<close> or
  \<open>y_min \<ge> y_max\<close>.  On each failure \<open>main\<close> prints one message and returns without
  calling the renderer, so no pixel is computed; otherwise it calls
  \<open>render_mandelbrot_cpu\<close>, which itself validates nothing.
\<close>

theorem main_validation:
  "(validate_params params = Some InvalidDimensions \<longleftrightarrow> width params \<le> 0 \<or> height params \<le> 0)
   \<and> (validate_params params = Some InvalidIterationBudget
        \<longleftrightarrow> 0 < width params \<and> 0 < height params \<and> max_iter params \<le> 0)
   \<and> (validate_params params = Some InvalidViewport
        \<longleftrightarrow> 0 < width params \<and> 0 < height params \<and> 0 < max_iter params
            \<and> (x_max params \<le> x_min params \<or> y_max params \<le> y_min params))
   \<and> (\<forall>e. validate_params params = Some e
        \<longrightarrow> main_render params w = (Inl e, cout (LogError (error_message e)) w))
   \<and> (validate_params params = None
        \<longrightarrow> main_render params w
            = (Inr (fst (render_mandelbrot_cpu params w)), snd (render_mandelbrot_cpu params w)))"
  by (auto simp add: validate_params_def main_render_def split: prod.splits)

theorem main_validation_witness:
  "validate_params \<lparr>width = 800, height = 600, max_iter = 1000, x_min = 1, x_max = - 2,
        y_min = - 1.2, y_max = 1.2\<rparr> = Some InvalidViewport
   \<and> main_render \<lparr>width = 800, height = 600, max_iter = 1000, x_min = 1, x_max = - 2,
        y_min = - 1.2, y_max = 1.2\<rparr> \<lparr>clock = int, reads = 0, console = []\<rparr>
      = (Inl InvalidViewport,
         \<lparr>clock = int, reads = 0, console = [LogError ''[ERROR] invalid coordinate range'']\<rparr>)
   \<and> validate_params \<lparr>width = 0, height = 600, max_iter = 1000, x_min = - 2, x_max = 1,
        y_min = - 1.2, y_max = 1.2\<rparr> = Some InvalidDimensions
   \<and> validate_params \<lparr>width = 800, height = 600, max_iter = 1000, x_min = - 2, x_max = 1,
        y_min = - 1.2, y_max = 1.2\<rparr> = None
   \<and> fst (main_render \<lparr>width = 800, height = 600, max_iter = 1000, x_min = - 2, x_max = 1,
        y_min = - 1.2, y_max = 1.2\<rparr> \<lparr>clock = int, reads = 0, console = []\<rparr>)
      = Inr (fst (render_mandelbrot_cpu \<lparr>width = 800, height = 600, max_iter = 1000,
          x_min = - 2, x_max = 1, y_min = - 1.2, y_max = 1.2\<rparr>
          \<lparr>clock = int, reads = 0, console = []\<rparr>))"
  using main_validation [of "\<lparr>width = 800, height = 600, max_iter = 1000, x_min = 1, x_max = - 2,
        y_min = - 1.2, y_max = 1.2\<rparr>" "\<lparr>clock = int, reads = 0, console = []\<rparr>"]
    main_validation [of "\<lparr>width = 0, height = 600, max_iter = 1000, x_min = - 2, x_max = 1,
        y_min = - 1.2, y_max = 1.2\<rparr>" "\<lparr>clock = int, reads = 0, console = []\<rparr>"]
    main_validation [of "\<lparr>width = 800, height = 600, max_iter = 1000, x_min = - 2, x_max = 1,
        y_min = - 1.2, y_max = 1.2\<rparr>" "\<lparr>clock = int, reads = 0, console = []\<rparr>"]
  by (simp add: cout_def error_message_def validate_params_def)

text \<open>
  Claim C6 (found false).  The claim: with \<open>W = 1\<close> or \<open>H = 1\<close> the viewport mapping does
  not divide by zero and samples the midpoint of the axis.  The request
  \<open>W = 1\<close>, \<open>H = 600\<close> passes the validation of \<open>main\<close>, and the mapping of its only
  column divides \<open>(x_max - x_min) * 0\<close> by \<open>W - 1 = 0\<close>: the sample is no real number
  (NaN in IEEE arithmetic), not the midpoint \<open>-0.5\<close>.  The same holds for the only row
  when \<open>H = 1\<close>.
\<close>

theorem single_pixel_axis_divides_by_zero:
  "validate_params \<lparr>width = 1, height = 600, max_iter = 1000, x_min = - 2, x_max = 1,
        y_min = - 1.2, y_max = 1.2\<rparr> = None
   \<and> pixel_real \<lparr>width = 1, height = 600, max_iter = 1000, x_min = - 2, x_max = 1,
        y_min = - 1.2, y_max = 1.2\<rparr> 0 = Inl FloatDivByZero
   \<and> fst (render_mandelbrot_cpu \<lparr>width = 1, height = 600, max_iter = 1000, x_min = - 2,
        x_max = 1, y_min = - 1.2, y_max = 1.2\<rparr> \<lparr>clock = int, reads = 0, console = []\<rparr>)
      = Inl FloatDivByZero
   \<and> pixel_imag \<lparr>width = 800, height = 1, max_iter = 1000, x_min = - 2, x_max = 1,
        y_min = - 1.2, y_max = 1.2\<rparr> 0 = Inl FloatDivByZero"
  by (simp add: validate_params_def pixel_real_def pixel_imag_def ddiv_def render_fst
      int_range_def py_loop.simps px_loop.simps pixel_color_def)




text \<open>
  Claim C8.  For every iteration cap \<open>cap \<ge> 0\<close> and every sample, the step count of
  each kernel (Mandelbrot, its OpenMP variant, Julia, Burning Ship) lies between 0 and
  \<open>cap\<close>; and every pixel of the Newton render gets an iteration count between 0 and
  \<open>cap\<close> and a root id in {0, 1, 2, 3}.
\<close>

theorem steps_bounded:
  assumes "0 \<le> cap"
  shows "(0 \<le> mandelbrot_iterations re im cap \<and> mandelbrot_iterations re im cap \<le> cap)
    \<and> (0 \<le> mandelbrot_iterations_omp re im cap \<and> mandelbrot_iterations_omp re im cap \<le> cap)
    \<and> (0 \<le> julia_iterations re im cx cy cap \<and> julia_iterations re im cx cy cap \<le> cap)
    \<and> (0 \<le> computeBurningShip \<lparr>bs_width = w, bs_height = h, bs_max_iterations = cap\<rparr> re im
        \<and> computeBurningShip \<lparr>bs_width = w, bs_height = h, bs_max_iterations = cap\<rparr> re im \<le> cap)
    \<and> (\<forall>root_id iterations.
          newton_pixel \<lparr>nf_width = w, nf_height = h, nf_max_iterations = cap\<rparr>
            center_x center_y zoom x y = Inr (root_id, iterations)
          \<longrightarrow> 0 \<le> iterations \<and> iterations \<le> cap \<and> root_id \<in> {0, 1, 2, 3})"
proof -
  have m: "0 \<le> mandelbrot_iterations re im cap \<and> mandelbrot_iterations re im cap \<le> cap"
    unfolding mandelbrot_iterations_def by (rule mandelbrot_loop_bounds [OF assms])
  have o: "0 \<le> mandelbrot_iterations_omp re im cap \<and> mandelbrot_iterations_omp re im cap \<le> cap"
    unfolding mandelbrot_iterations_omp_def by (rule omp_loop_bounds [OF assms])
  have j: "0 \<le> julia_iterations re im cx cy cap \<and> julia_iterations re im cx cy cap \<le> cap"
    unfolding julia_iterations_def by (rule julia_loop_bounds [OF assms])
  have b: "0 \<le> burning_ship_loop re im 0 0 0 cap \<and> burning_ship_loop re im 0 0 0 cap \<le> cap"
    by (rule burning_ship_loop_bounds [OF assms])
  have n: "\<forall>root_id iterations.
          newton_pixel \<lparr>nf_width = w, nf_height = h, nf_max_iterations = cap\<rparr>
            center_x center_y zoom x y = Inr (root_id, iterations)
          \<longrightarrow> 0 \<le> iterations \<and> iterations \<le> cap \<and> root_id \<in> {0, 1, 2, 3}"
    using newton_pixel_bounds [of "\<lparr>nf_width = w, nf_height = h, nf_max_iterations = cap\<rparr>"] assms
    by fastforce
  from m o j b n show ?thesis by (simp add: computeBurningShip_def)
qed

theorem steps_bounded_witness:
  "(0::int) \<le> 100
    \<and> (0 \<le> mandelbrot_iterations 3 0 100 \<and> mandelbrot_iterations 3 0 100 \<le> 100)
    \<and> (0 \<le> mandelbrot_iterations_omp 3 0 100 \<and> mandelbrot_iterations_omp 3 0 100 \<le> 100)
    \<and> (0 \<le> julia_iterations 3 0 0 0 100 \<and> julia_iterations 3 0 0 0 100 \<le> 100)
    \<and> (0 \<le> computeBurningShip \<lparr>bs_width = 801, bs_height = 601, bs_max_iterations = 100\<rparr> 3 0
        \<and> computeBurningShip \<lparr>bs_width = 801, bs_height = 601, bs_max_iterations = 100\<rparr> 3 0 \<le> 100)
    \<and> newton_pixel \<lparr>nf_width = 801, nf_height = 601, nf_max_iterations = 100\<rparr> 1 0 1 400 300
         = Inr (1, 0)
    \<and> (0::int) \<le> 0 \<and> (0::int) \<le> 100 \<and> (1::int) \<in> {0, 1, 2, 3}"
  using steps_bounded [of 100 3 0 0 0 801 601 1 0 1 400 300] newton_at_root1
  by simp

text \<open>
  Claim C9.  The buffer returned by \<open>render_mandelbrot_cpu\<close> does not depend on the
  state of the world in which the render runs (the clock readings and the console): two
  renders of the same request return the same result.  For a request with \<open>W \<ge> 2\<close>,
  \<open>H \<ge> 10\<close> and dimensions small enough for 32-bit \<open>int\<close> arithmetic, this result is a
  buffer of \<open>3 * W * H\<close> bytes.  Whenever a buffer is returned, the three bytes at index
  \<open>(py * W + px) * 3\<close> are the colour \<open>pixel_color params px py\<close>, a function of the pixel
  and the request alone.
\<close>

theorem render_deterministic:
  "fst (render_mandelbrot_cpu params w) = fst (render_mandelbrot_cpu params w')
   \<and> (2 \<le> width params \<and> 10 \<le> height params \<and> 100 * height params \<le> 2 ^ 31 - 1
        \<and> 3 * (width params * height params) \<le> 2 ^ 31 - 1
      \<longrightarrow> (\<exists>buf. length buf = nat (3 * (width params * height params))
            \<and> fst (render_mandelbrot_cpu params w) = Inr buf
            \<and> fst (render_mandelbrot_cpu params w') = Inr buf))
   \<and> (\<forall>buf px py. fst (render_mandelbrot_cpu params w) = Inr buf
          \<and> 0 \<le> px \<and> px < width params \<and> 0 \<le> py \<and> py < height params
      \<longrightarrow> pixel_color params px py
            = Inr (RGB (buf ! nat ((py * width params + px) * 3))
                       (buf ! nat ((py * width params + px) * 3 + 1))
                       (buf ! nat ((py * width params + px) * 3 + 2))))"
proof (intro conjI impI allI)
  show eq: "fst (render_mandelbrot_cpu params w) = fst (render_mandelbrot_cpu params w')"
    by (rule render_world)
  {
    assume "2 \<le> width params \<and> 10 \<le> height params \<and> 100 * height params \<le> 2 ^ 31 - 1
        \<and> 3 * (width params * height params) \<le> 2 ^ 31 - 1"
    then obtain buf where "fst (render_mandelbrot_cpu params w) = Inr buf"
      "length buf = nat (3 * (width params * height params))"
      using render_ok [of params w] by blast
    with eq show "\<exists>buf. length buf = nat (3 * (width params * height params))
            \<and> fst (render_mandelbrot_cpu params w) = Inr buf
            \<and> fst (render_mandelbrot_cpu params w') = Inr buf"
      by auto
  }
  fix buf px py
  assume "fst (render_mandelbrot_cpu params w) = Inr buf
          \<and> 0 \<le> px \<and> px < width params \<and> 0 \<le> py \<and> py < height params"
  then obtain c where "pixel_color params px py = Inr c"
    "buf ! nat ((py * width params + px) * 3) = rgb_r c"
    "buf ! nat ((py * width params + px) * 3 + 1) = rgb_g c"
    "buf ! nat ((py * width params + px) * 3 + 2) = rgb_b c"
    using render_pixels [of params w buf px py] by blast
  then show "pixel_color params px py
            = Inr (RGB (buf ! nat ((py * width params + px) * 3))
                       (buf ! nat ((py * width params + px) * 3 + 1))
                       (buf ! nat ((py * width params + px) * 3 + 2)))"
    by simp
qed

theorem render_deterministic_witness:
  "\<exists>buf. length buf = 1440000
     \<and> fst (render_mandelbrot_cpu \<lparr>width = 800, height = 600, max_iter = 1000, x_min = - 2,
          x_max = 1, y_min = - 1.2, y_max = 1.2\<rparr> \<lparr>clock = int, reads = 0, console = []\<rparr>)
        = Inr buf
     \<and> fst (render_mandelbrot_cpu \<lparr>width = 800, height = 600, max_iter = 1000, x_min = - 2,
          x_max = 1, y_min = - 1.2, y_max = 1.2\<rparr>
          \<lparr>clock = (\<lambda>n. 1000 * int n), reads = 7, console = [LogProgress 50]\<rparr>)
        = Inr buf
     \<and> pixel_color \<lparr>width = 800, height = 600, max_iter = 1000, x_min = - 2,
          x_max = 1, y_min = - 1.2, y_max = 1.2\<rparr> 400 300
        = Inr (RGB (buf ! 721200) (buf ! 721201) (buf ! 721202))"
proof -
  let ?p = "\<lparr>width = 800, height = 600, max_iter = 1000, x_min = - 2,
          x_max = 1, y_min = - 1.2, y_max = 1.2\<rparr>"
  let ?w = "\<lparr>clock = int, reads = 0, console = []\<rparr>"
  let ?w' = "\<lparr>clock = (\<lambda>n. 1000 * int n), reads = 7, console = [LogProgress 50]\<rparr>"
  note t = render_deterministic [of ?p ?w ?w']
  from t obtain buf where buf: "length buf = 1440000"
    "fst (render_mandelbrot_cpu ?p ?w) = Inr buf" "fst (render_mandelbrot_cpu ?p ?w') = Inr buf"
    by auto
  from t buf(2) have "pixel_color ?p 400 300
      = Inr (RGB (buf ! nat ((300 * width ?p + 400) * 3))
                 (buf ! nat ((300 * width ?p + 400) * 3 + 1))
                 (buf ! nat ((300 * width ?p + 400) * 3 + 2)))"
    by simp
  with buf show ?thesis by auto
qed

text \<open>
  Claim C10.  After each row \<open>py\<close>, \<open>render_mandelbrot_cpu\<close> evaluates
  \<open>py % (height / 10)\<close>.  For a positive height the divisor is nonzero if and only if
  \<open>height \<ge> 10\<close>.  For \<open>0 < height < 10\<close> the progress check of every row is a modulo
  by zero, and a render of at least two columns and two rows stops at it; for
  \<open>height \<ge> 10\<close> neither the progress check nor the render ever takes a modulo by
  zero.  (With a single column or a single row the model stops earlier, at the division
  by zero of the viewport mapping.)
\<close>

theorem progress_check_modulo_by_zero:
  "(0 < height params \<longrightarrow> (height params sdiv 10 \<noteq> 0 \<longleftrightarrow> 10 \<le> height params))
   \<and> (0 < height params \<and> height params < 10
        \<longrightarrow> progress_report params py w = Inl IntModByZero)
   \<and> (2 \<le> width params \<and> 2 \<le> height params \<and> height params < 10
        \<and> 3 * (width params * height params) \<le> 2 ^ 31 - 1
        \<longrightarrow> fst (render_mandelbrot_cpu params w) = Inl IntModByZero)
   \<and> (10 \<le> height params
        \<longrightarrow> progress_report params py w \<noteq> Inl IntModByZero
          \<and> fst (render_mandelbrot_cpu params w) \<noteq> Inl IntModByZero)"
  using sdiv_10_iff [of "height params"] progress_report_small [of params py w]
    render_small_height [of params w] progress_report_not_mod [of params py w]
    render_not_mod [of params w]
  by auto

theorem progress_check_modulo_by_zero_witness:
  "validate_params \<lparr>width = 800, height = 9, max_iter = 1000, x_min = - 2, x_max = 1,
        y_min = - 1.2, y_max = 1.2\<rparr> = None
   \<and> (9::int) sdiv 10 = 0
   \<and> progress_report \<lparr>width = 800, height = 9, max_iter = 1000, x_min = - 2, x_max = 1,
        y_min = - 1.2, y_max = 1.2\<rparr> 0 \<lparr>clock = int, reads = 0, console = []\<rparr>
      = Inl IntModByZero
   \<and> fst (render_mandelbrot_cpu \<lparr>width = 800, height = 9, max_iter = 1000, x_min = - 2,
        x_max = 1, y_min = - 1.2, y_max = 1.2\<rparr> \<lparr>clock = int, reads = 0, console = []\<rparr>)
      = Inl IntModByZero
   \<and> (600::int) sdiv 10 \<noteq> 0
   \<and> fst (render_mandelbrot_cpu \<lparr>width = 800, height = 600, max_iter = 1000, x_min = - 2,
        x_max = 1, y_min = - 1.2, y_max = 1.2\<rparr> \<lparr>clock = int, reads = 0, console = []\<rparr>)
      \<noteq> Inl IntModByZero"
  using progress_check_modulo_by_zero [of "\<lparr>width = 800, height = 9, max_iter = 1000,
        x_min = - 2, x_max = 1, y_min = - 1.2, y_max = 1.2\<rparr>" 0
        "\<lparr>clock = int, reads = 0, console = []\<rparr>"]
    progress_check_modulo_by_zero [of "\<lparr>width = 800, height = 600, max_iter = 1000,
        x_min = - 2, x_max = 1, y_min = - 1.2, y_max = 1.2\<rparr>" 0
        "\<lparr>clock = int, reads = 0, console = []\<rparr>"]
  by (simp add: validate_params_def)

end
